theory Spec2Isabelle
  imports Main
begin

section \<open>The service worker (src/frontend/static/js/sw.js)\<close>

subsection \<open>Requests, responses and the platform's cache storage\<close>

text \<open>
  A request as the worker reads it: the origin and the pathname of \<open>new URL(request.url)\<close>,
  the (normalised, upper-case) method and \<open>request.destination\<close>.
\<close>

record request =
  req_origin :: string
  req_pathname :: string
  req_method :: string
  req_destination :: string

record response =
  resp_status :: nat
  resp_type :: string
  resp_body :: string

text \<open>\<open>response.ok\<close>: the status is in the range 200-299.\<close>

definition resp_ok :: "response \<Rightarrow> bool" where
  "resp_ok r = (200 \<le> resp_status r \<and> resp_status r \<le> 299)"

text \<open>
  One cache is the ordered list of its entries, each keyed by the request it was stored
  under (method included, so that the method of a key can be talked about). The cache
  storage of the origin (\<open>caches\<close>) is the list of named caches in creation order.
\<close>

type_synonym cache = "(request \<times> response) list"
type_synonym cache_storage = "(string \<times> cache) list"

definition same_url :: "request \<Rightarrow> request \<Rightarrow> bool" where
  "same_url a b = (req_origin a = req_origin b \<and> req_pathname a = req_pathname b)"

text \<open>
  The operations of the browser's Cache interface that the worker calls. They are the
  platform's, not the repository's; they are written as the Service Worker standard
  defines them:
  \<^item> \<open>cache.match(request)\<close> answers only a GET request, with the first entry of the
    same URL;
  \<^item> \<open>cache.put(request, response)\<close> rejects with a TypeError, storing nothing, when
    the request's method is not GET or the response's status is 206; otherwise it
    replaces the entries of the same URL by the new one;
  \<^item> \<open>caches.open(name)\<close> creates the cache when there is none of that name;
  \<^item> \<open>caches.match(request)\<close> asks the caches in creation order;
  \<^item> \<open>caches.keys()\<close> lists the names, \<open>caches.delete(name)\<close> removes a cache.
  The worker never handles the rejection of \<open>cache.put\<close>: the promise is dropped, so a
  rejected put leaves the cache as it was and does not change the response.
  Two simplifications: a URL is its origin and pathname (query strings are not
  modelled), and a response has no headers, so the platform's refusal to store a
  response with \<open>Vary: *\<close> is not modelled.
\<close>

fun cache_lookup :: "request \<Rightarrow> cache \<Rightarrow> response option" where
  "cache_lookup req [] = None"
| "cache_lookup req ((k, r) # es) = (if same_url k req then Some r else cache_lookup req es)"

definition cache_match :: "request \<Rightarrow> cache \<Rightarrow> response option" where
  "cache_match req c = (if req_method req \<noteq> ''GET'' then None else cache_lookup req c)"

definition cache_put :: "request \<Rightarrow> response \<Rightarrow> cache \<Rightarrow> cache" where
  "cache_put req resp c =
     (if req_method req \<noteq> ''GET'' \<or> resp_status resp = 206 then c
      else filter (\<lambda>e. \<not> same_url (fst e) req) c @ [(req, resp)])"

definition caches_open :: "string \<Rightarrow> cache_storage \<Rightarrow> cache_storage" where
  "caches_open name cs = (if name \<in> set (map fst cs) then cs else cs @ [(name, [])])"

text \<open>\<open>caches.open(name).then(cache => f(cache))\<close>: open, then update that cache.\<close>

definition with_cache :: "string \<Rightarrow> (cache \<Rightarrow> cache) \<Rightarrow> cache_storage \<Rightarrow> cache_storage" where
  "with_cache name f cs =
     map (\<lambda>e. if fst e = name then (fst e, f (snd e)) else e) (caches_open name cs)"

fun caches_match :: "request \<Rightarrow> cache_storage \<Rightarrow> response option" where
  "caches_match req [] = None"
| "caches_match req (e # cs) =
     (case cache_match req (snd e) of
        Some r \<Rightarrow> Some r
      | None \<Rightarrow> caches_match req cs)"

definition caches_keys :: "cache_storage \<Rightarrow> string list" where
  "caches_keys cs = map fst cs"

definition caches_delete :: "string \<Rightarrow> cache_storage \<Rightarrow> cache_storage" where
  "caches_delete name cs = filter (\<lambda>e. fst e \<noteq> name) cs"

subsection \<open>The worker's constants\<close>

definition CACHE_NAME :: string where
  "CACHE_NAME = ''spot-carwash-v1''"

definition RUNTIME_CACHE :: string where
  "RUNTIME_CACHE = ''spot-runtime-v1''"

definition STATIC_ASSETS :: "string list" where
  "STATIC_ASSETS =
     [''/'', ''/static/css/style.css'', ''/static/js/app.js'', ''/dashboard'', ''/queue'']"

text \<open>
  \<open>new Request(url)\<close> for a path of the worker's own origin: a GET request with an empty
  destination. The \<open>cache: 'reload'\<close> option only bypasses the HTTP cache.
\<close>

definition new_request :: "string \<Rightarrow> string \<Rightarrow> request" where
  "new_request loc path =
     \<lparr>req_origin = loc, req_pathname = path, req_method = ''GET'', req_destination = ''''\<rparr>"

subsection \<open>install\<close>

text \<open>
  \<open>caches.open(CACHE_NAME).then(cache => cache.addAll(...))\<close>. \<open>addAll\<close> fetches every
  request and stores all the responses, or none: it rejects when a fetch fails or a
  response is not ok (or is a 206), and the handler's \<open>catch\<close> only logs that. The
  network is the function \<open>net\<close>, \<open>None\<close> for a fetch that rejects.
\<close>

definition addAll_ok :: "response option \<Rightarrow> bool" where
  "addAll_ok out = (case out of None \<Rightarrow> False | Some r \<Rightarrow> resp_ok r \<and> resp_status r \<noteq> 206)"

definition put_fetched :: "(request \<Rightarrow> response option) \<Rightarrow> request \<Rightarrow> cache \<Rightarrow> cache" where
  "put_fetched net q c = (case net q of None \<Rightarrow> c | Some r \<Rightarrow> cache_put q r c)"

definition cache_addAll :: "(request \<Rightarrow> response option) \<Rightarrow> request list \<Rightarrow> cache \<Rightarrow> cache" where
  "cache_addAll net reqs c =
     (if list_all (\<lambda>q. addAll_ok (net q)) reqs then fold (put_fetched net) reqs c else c)"

definition install :: "string \<Rightarrow> (request \<Rightarrow> response option) \<Rightarrow> cache_storage \<Rightarrow> cache_storage" where
  "install loc net cs =
     with_cache CACHE_NAME (cache_addAll net (map (new_request loc) STATIC_ASSETS)) cs"

subsection \<open>activate\<close>

text \<open>
  \<open>caches.keys()\<close>, filtered to the names that are neither of the two current ones, each
  deleted (\<open>Promise.all\<close> of the deletions).
\<close>

definition activate :: "cache_storage \<Rightarrow> cache_storage" where
  "activate cs =
     fold caches_delete
       (filter (\<lambda>cacheName. cacheName \<noteq> CACHE_NAME \<and> cacheName \<noteq> RUNTIME_CACHE) (caches_keys cs))
       cs"

subsection \<open>fetch\<close>

fun startsWith :: "string \<Rightarrow> string \<Rightarrow> bool" where
  "startsWith s [] = True"
| "startsWith [] (p # ps) = False"
| "startsWith (c # cs) (p # ps) = (c = p \<and> startsWith cs ps)"

text \<open>
  \<open>fetchAndCache(request)\<close>, given the outcome of its \<open>fetch\<close> (\<open>None\<close>: the fetch
  rejected, and so does the function). A fetch never resolves to a null response, so
  the \<open>!response\<close> test is the status and type test alone.
\<close>

definition fetchAndCache :: "request \<Rightarrow> response option \<Rightarrow> cache_storage \<Rightarrow> response option \<times> cache_storage" where
  "fetchAndCache req net cs =
     (case net of
        None \<Rightarrow> (None, cs)
      | Some resp \<Rightarrow>
          if resp_status resp \<noteq> 200 \<or> resp_type resp = ''error'' then (Some resp, cs)
          else (Some resp, with_cache RUNTIME_CACHE (cache_put req resp) cs))"

text \<open>
  What the fetch listener does with the event: it returns without \<open>respondWith\<close>
  (\<open>PassThrough\<close>), or it responds with a promise that settles to a response or to
  \<open>undefined\<close> (\<open>Respond None\<close>, which the browser turns into a network error).
\<close>

datatype fetch_result = PassThrough | Respond "response option"

definition fetch_listener :: "string \<Rightarrow> request \<Rightarrow> response option \<Rightarrow> cache_storage \<Rightarrow> fetch_result \<times> cache_storage" where
  "fetch_listener loc req net cs =
     (if req_origin req \<noteq> loc then (PassThrough, cs)
      else if startsWith (req_pathname req) ''/api/'' then
        (case net of
           Some resp \<Rightarrow>
             (Respond (Some resp),
              if resp_ok resp then with_cache RUNTIME_CACHE (cache_put req resp) cs else cs)
         | None \<Rightarrow> (Respond (caches_match req cs), cs))
      else
        (case caches_match req cs of
           Some cachedResponse \<Rightarrow> (Respond (Some cachedResponse), snd (fetchAndCache req net cs))
         | None \<Rightarrow>
             (case fetchAndCache req net cs of
                (Some resp, cs') \<Rightarrow> (Respond (Some resp), cs')
              | (None, cs') \<Rightarrow>
                  (if req_destination req = ''document''
                   then Respond (caches_match (new_request loc ''/offline.html'') cs')
                   else Respond None,
                   cs'))))"

subsection \<open>The worker as a transition system on the cache storage\<close>

text \<open>
  The events the worker listens to. \<open>sync\<close>, \<open>periodicsync\<close>, \<open>push\<close> and
  \<open>notificationclick\<close> never touch a cache (\<open>syncData\<close> only logs).
\<close>

datatype sw_event =
    InstallEvent "request \<Rightarrow> response option"
  | ActivateEvent
  | FetchEvent request "response option"
  | OtherEvent

fun sw_step :: "string \<Rightarrow> sw_event \<Rightarrow> cache_storage \<Rightarrow> cache_storage" where
  "sw_step loc (InstallEvent net) cs = install loc net cs"
| "sw_step loc ActivateEvent cs = activate cs"
| "sw_step loc (FetchEvent req net) cs = snd (fetch_listener loc req net cs)"
| "sw_step loc OtherEvent cs = cs"

definition sw_run :: "string \<Rightarrow> sw_event list \<Rightarrow> cache_storage \<Rightarrow> cache_storage" where
  "sw_run loc evs cs = fold (sw_step loc) evs cs"

section \<open>The page application (SpotApp)\<close>

subsection \<open>Configuration, state and the world around the page\<close>

definition apiBaseUrl :: string where
  "apiBaseUrl = ''/api''"

definition refreshInterval :: nat where
  "refreshInterval = 30000"

definition maxRetries :: nat where
  "maxRetries = 3"

text \<open>
  A queued action is a JavaScript object; the queue holds references to such objects and
  \<open>indexOf\<close> compares references. Objects live in a store that maps a reference to the
  object's fields; \<open>action.method\<close> and \<open>action.data\<close> may be absent.
\<close>

record action =
  act_endpoint :: string
  act_method :: "string option"
  act_data :: "string option"

type_synonym ref = nat
type_synonym store = "ref \<Rightarrow> action"

text \<open>\<open>SpotApp.state\<close>, the fields that the functions below read or write.\<close>

record app_state =
  isOnline :: bool
  syncQueue :: "ref list"
  refreshTimer :: "nat option"
  retryCount :: nat
  pageVisibility :: string

text \<open>
  The parsed body of an API response, as far as the page reads it: \<open>response.success\<close>,
  whether \<open>response.data\<close> is there, and \<open>response.error?.message\<close>.
\<close>

record envelope =
  env_success :: bool
  env_data :: bool
  env_error_message :: "string option"

text \<open>
  What a \<open>fetch\<close> of the page comes to: the promise rejects (no network), or it resolves
  to a response with a status and a body, \<open>None\<close> for a body that \<open>response.json()\<close>
  cannot parse.
\<close>

datatype fetch_outcome = Rejected | Replied nat "envelope option"

text \<open>The errors \<open>apiCall\<close> throws: \<open>HttpError n\<close> is \<open>Error('HTTP error! status: n')\<close>.\<close>

datatype api_error = NetworkError | HttpError nat | ParseError

text \<open>What the page does to the outside, in the order it does it.\<close>

datatype effect =
    Fetch string string "string option"
  | Delay nat
  | Toast string string
  | ShowLoading string
  | HideLoading
  | UpdateDashboardStats
  | SetInterval nat nat
  | ClearInterval nat

text \<open>
  The world: \<open>network n\<close> is the outcome of the \<open>n\<close>-th fetch the page issues, \<open>issued\<close>
  counts the fetches issued so far, \<open>effects\<close> is the log, \<open>pathname\<close> is
  \<open>window.location.pathname\<close>, \<open>visibilityState\<close> is \<open>document.visibilityState\<close> and
  \<open>nextTimer\<close> is the handle the next \<open>setInterval\<close> returns (handles are positive, so a
  timer that is set is truthy).
\<close>

record world =
  network :: "nat \<Rightarrow> fetch_outcome"
  issued :: nat
  effects :: "effect list"
  pathname :: string
  visibilityState :: string
  nextTimer :: nat

definition emit :: "effect \<Rightarrow> world \<Rightarrow> world" where
  "emit e w = w\<lparr>effects := effects w @ [e]\<rparr>"

subsection \<open>apiCall\<close>

text \<open>
  The \<open>try\<close> block of \<open>apiCall\<close> on the outcome of its fetch: a response that is not ok
  throws, a body that does not parse throws, a rejected fetch throws.
\<close>

definition attempt :: "fetch_outcome \<Rightarrow> api_error + envelope" where
  "attempt out =
     (case out of
        Rejected \<Rightarrow> Inl NetworkError
      | Replied status body \<Rightarrow>
          if \<not> (200 \<le> status \<and> status \<le> 299) then Inl (HttpError status)
          else (case body of None \<Rightarrow> Inl ParseError | Some result \<Rightarrow> Inr result))"

text \<open>
  \<open>apiCall(endpoint, method, data)\<close>. The body is sent when \<open>data\<close> is there and the
  method is not GET. Every failure of the \<open>try\<close> block lands in the one \<open>catch\<close>.
  This function is one call chain on its own: no other call or handler of the page runs
  between its steps (the steps themselves, and calls that overlap, are in the subsection
  "apiCall, step by step"). The custom headers, which no caller passes, are left out.
\<close>

function apiCall ::
  "string \<Rightarrow> string \<Rightarrow> string option \<Rightarrow> app_state \<times> world \<Rightarrow> (api_error + envelope) \<times> app_state \<times> world"
where
  "apiCall endpoint meth data (s, w) =
     (let url = apiBaseUrl @ endpoint;
          body = (if data \<noteq> None \<and> meth \<noteq> ''GET'' then data else None);
          w1 = (emit (Fetch url meth body) w)\<lparr>issued := issued w + 1\<rparr>
      in case attempt (network w (issued w)) of
           Inr result \<Rightarrow> (Inr result, s\<lparr>retryCount := 0\<rparr>, w1)
         | Inl error \<Rightarrow>
             if isOnline s \<and> retryCount s < maxRetries then
               apiCall endpoint meth data
                 (s\<lparr>retryCount := retryCount s + 1\<rparr>,
                  emit (Delay (1000 * (retryCount s + 1))) w1)
             else (Inl error, s, w1))"
  by pat_completeness auto
termination
  by (relation "measure (\<lambda>(endpoint, meth, data, s, w). maxRetries - retryCount s)") auto

declare apiCall.simps [simp del]

text \<open>The world after \<open>apiCall\<close> has issued its fetch.\<close>

definition sent :: "string \<Rightarrow> string \<Rightarrow> string option \<Rightarrow> world \<Rightarrow> world" where
  "sent endpoint meth data w =
     (emit (Fetch (apiBaseUrl @ endpoint) meth (if data \<noteq> None \<and> meth \<noteq> ''GET'' then data else None)) w)
       \<lparr>issued := issued w + 1\<rparr>"

lemma apiCall_success:
  "attempt (network w (issued w)) = Inr result \<Longrightarrow>
   apiCall endpoint meth data (s, w) = (Inr result, s\<lparr>retryCount := 0\<rparr>, sent endpoint meth data w)"
  by (simp add: apiCall.simps [of endpoint meth data s w] sent_def Let_def)

lemma apiCall_retry:
  "attempt (network w (issued w)) = Inl error \<Longrightarrow> isOnline s \<Longrightarrow> retryCount s < maxRetries \<Longrightarrow>
   apiCall endpoint meth data (s, w) =
     apiCall endpoint meth data
       (s\<lparr>retryCount := retryCount s + 1\<rparr>,
        emit (Delay (1000 * (retryCount s + 1))) (sent endpoint meth data w))"
  by (simp add: apiCall.simps [of endpoint meth data s w] sent_def Let_def)

lemma apiCall_fail:
  "attempt (network w (issued w)) = Inl error \<Longrightarrow> \<not> (isOnline s \<and> retryCount s < maxRetries) \<Longrightarrow>
   apiCall endpoint meth data (s, w) = (Inl error, s, sent endpoint meth data w)"
  by (auto simp add: apiCall.simps [of endpoint meth data s w] sent_def Let_def)

lemma apiCall_syncQueue:
  "syncQueue (fst (snd (apiCall endpoint meth data (s, w)))) = syncQueue s"
proof (induction "maxRetries - retryCount s" arbitrary: s w)
  case 0
  show ?case
  proof (cases "attempt (network w (issued w))")
    case (Inr result)
    then show ?thesis by (simp add: apiCall_success)
  next
    case (Inl error)
    with 0 show ?thesis by (simp add: apiCall_fail)
  qed
next
  case (Suc k)
  show ?case
  proof (cases "attempt (network w (issued w))")
    case (Inr result)
    then show ?thesis by (simp add: apiCall_success)
  next
    case (Inl error)
    show ?thesis
    proof (cases "isOnline s")
      case True
      have lt: "retryCount s < maxRetries" using Suc(2) by simp
      have "k = maxRetries - retryCount (s\<lparr>retryCount := retryCount s + 1\<rparr>)"
        using Suc(2) by simp
      then have "syncQueue (fst (snd (apiCall endpoint meth data
            (s\<lparr>retryCount := retryCount s + 1\<rparr>,
             emit (Delay (1000 * (retryCount s + 1))) (sent endpoint meth data w)))))
          = syncQueue (s\<lparr>retryCount := retryCount s + 1\<rparr>)"
        by (rule Suc(1))
      then show ?thesis by (simp add: apiCall_retry [OF Inl True lt])
    next
      case False
      with Inl show ?thesis by (simp add: apiCall_fail)
    qed
  qed
qed

lemma apiCall_unchanged_queue:
  "(r, s', w') = apiCall endpoint meth data (s, w) \<Longrightarrow> syncQueue s' = syncQueue s"
  using apiCall_syncQueue [of endpoint meth data s w] by (metis fst_conv snd_conv)

subsection \<open>apiCall, step by step\<close>

text \<open>
  \<open>apiCall\<close> is an async function: it gives up control at \<open>await fetch(...)\<close> and at
  \<open>await this.delay(...)\<close>, and other calls and handlers of the page may run there and
  write \<open>state.retryCount\<close> and \<open>state.isOnline\<close>. A call in flight is in one of these
  phases: not yet started, waiting for the fetch it issued as the \<open>n\<close>-th of the page,
  waiting for a delay of so many milliseconds, or settled with its result.
\<close>

datatype call_phase = Ready | Fetching nat | Delaying nat | Finished "api_error + envelope"

text \<open>
  One uninterrupted stretch of \<open>apiCall\<close>. Starting, and the end of a delay (the recursive
  call), build the request and issue the fetch. When the fetch settles, the rest of the
  \<open>try\<close> block or the \<open>catch\<close> block runs on the state as it is at that moment: the
  counter is incremented and read for the delay in the same stretch.
\<close>

definition call_step ::
  "string \<Rightarrow> string \<Rightarrow> string option \<Rightarrow> call_phase \<Rightarrow> app_state \<times> world \<Rightarrow> call_phase \<times> app_state \<times> world"
where
  "call_step endpoint meth data phase sw =
     (case sw of (s, w) \<Rightarrow>
        (case phase of
           Ready \<Rightarrow> (Fetching (issued w), s, sent endpoint meth data w)
         | Delaying ms \<Rightarrow> (Fetching (issued w), s, sent endpoint meth data w)
         | Fetching n \<Rightarrow>
             (case attempt (network w n) of
                Inr result \<Rightarrow> (Finished (Inr result), s\<lparr>retryCount := 0\<rparr>, w)
              | Inl error \<Rightarrow>
                  if isOnline s \<and> retryCount s < maxRetries
                  then (Delaying (1000 * (retryCount s + 1)),
                        s\<lparr>retryCount := retryCount s + 1\<rparr>,
                        emit (Delay (1000 * (retryCount s + 1))) w)
                  else (Finished (Inl error), s, w))
         | Finished r \<Rightarrow> (Finished r, s, w)))"

text \<open>
  The steps of one call with nothing in between, until it settles. It ends because a
  step either settles the call, moves it from a delay to a fetch, or increments a
  counter that was below the maximum.
\<close>

fun phase_rank :: "call_phase \<Rightarrow> nat \<Rightarrow> nat" where
  "phase_rank (Finished r) c = 0"
| "phase_rank (Fetching n) c = 2 * (maxRetries - c) + 2"
| "phase_rank Ready c = 2 * (maxRetries - c) + 3"
| "phase_rank (Delaying ms) c = 2 * (maxRetries - c) + 3"

lemma call_step_rank:
  "(case call_step endpoint meth data Ready (s, w) of
      (phase', s', w') \<Rightarrow> phase_rank phase' (retryCount s')) < 2 * (maxRetries - retryCount s) + 3"
  "(case call_step endpoint meth data (Fetching n) (s, w) of
      (phase', s', w') \<Rightarrow> phase_rank phase' (retryCount s')) < Suc (Suc (2 * (maxRetries - retryCount s)))"
  "(case call_step endpoint meth data (Delaying ms) (s, w) of
      (phase', s', w') \<Rightarrow> phase_rank phase' (retryCount s')) < 2 * (maxRetries - retryCount s) + 3"
  by (auto simp: call_step_def split: sum.splits)

function run_call ::
  "string \<Rightarrow> string \<Rightarrow> string option \<Rightarrow> call_phase \<Rightarrow> app_state \<times> world \<Rightarrow> (api_error + envelope) \<times> app_state \<times> world"
where
  "run_call endpoint meth data phase (s, w) =
     (case phase of
        Finished r \<Rightarrow> (r, s, w)
      | _ \<Rightarrow> (case call_step endpoint meth data phase (s, w) of
                (phase', s', w') \<Rightarrow> run_call endpoint meth data phase' (s', w')))"
  by pat_completeness auto
termination
  by (relation "measure (\<lambda>(endpoint, meth, data, phase, s, w). phase_rank phase (retryCount s))")
    (auto simp: call_step_rank)

declare run_call.simps [simp del]

text \<open>
  Several calls in flight: a pool of calls, each with its endpoint, method, data and
  phase; a schedule names the call that takes the next step.
\<close>

type_synonym call = "(string \<times> string \<times> string option) \<times> call_phase"

definition pool_step :: "nat \<Rightarrow> call list \<times> app_state \<times> world \<Rightarrow> call list \<times> app_state \<times> world" where
  "pool_step i psw =
     (case psw of (pool, s, w) \<Rightarrow>
        if i < length pool then
          (case pool ! i of ((endpoint, meth, data), phase) \<Rightarrow>
             (case call_step endpoint meth data phase (s, w) of
                (phase', s', w') \<Rightarrow> (pool[i := ((endpoint, meth, data), phase')], s', w')))
        else (pool, s, w))"

definition run_schedule :: "nat list \<Rightarrow> call list \<times> app_state \<times> world \<Rightarrow> call list \<times> app_state \<times> world" where
  "run_schedule sched psw = fold pool_step sched psw"

subsection \<open>syncOfflineActions\<close>

text \<open>\<open>Array.prototype.indexOf\<close>: the first index of the element, or -1.\<close>

fun indexOf :: "'a list \<Rightarrow> 'a \<Rightarrow> int" where
  "indexOf [] x = - 1"
| "indexOf (y # ys) x =
     (if y = x then 0 else (let i = indexOf ys x in if i < 0 then - 1 else i + 1))"

text \<open>
  \<open>Array.prototype.splice(start, deleteCount)\<close> with no items to insert: a negative
  start counts from the end, and the count is clamped to what is left.
\<close>

definition splice_js :: "'a list \<Rightarrow> int \<Rightarrow> int \<Rightarrow> 'a list" where
  "splice_js xs start deleteCount =
     (let len = int (length xs);
          actualStart = (if start < 0 then max (len + start) 0 else min start len);
          actualDeleteCount = min (max deleteCount 0) (len - actualStart)
      in take (nat actualStart) xs @ drop (nat (actualStart + actualDeleteCount)) xs)"

lemma length_splice: "length (splice_js xs start deleteCount) \<le> length xs"
  by (auto simp: splice_js_def Let_def)

text \<open>
  The \<open>for (const action of this.state.syncQueue)\<close> loop. The array iterator keeps an
  index; each step compares it with the array's current length, reads the element at the
  index and advances by one, whatever the body did to the array.
\<close>

function syncLoop :: "store \<Rightarrow> nat \<Rightarrow> app_state \<times> world \<Rightarrow> app_state \<times> world" where
  "syncLoop h i (s, w) =
     (if i < length (syncQueue s) then
        (let action = syncQueue s ! i
         in case apiCall (act_endpoint (h action))
                  (case act_method (h action) of None \<Rightarrow> ''GET'' | Some m \<Rightarrow> m)
                  (act_data (h action)) (s, w) of
              (Inr result, s', w') \<Rightarrow>
                syncLoop h (i + 1)
                  (s'\<lparr>syncQueue := splice_js (syncQueue s') (indexOf (syncQueue s') action) 1\<rparr>, w')
            | (Inl error, s', w') \<Rightarrow> syncLoop h (i + 1) (s', w'))
      else (s, w))"
  by pat_completeness auto
termination
proof (relation "measure (\<lambda>(h, i, s, w). length (syncQueue s) - i)", goal_cases)
  case 1
  show ?case by simp
next
  case (2 h i s w action r p error s' w')
  then show ?case by (auto dest!: apiCall_unchanged_queue)
next
  case (3 h i s w action r p result s' w')
  have "length (splice_js (syncQueue s) (indexOf (syncQueue s) action) 1) \<le> length (syncQueue s)"
    by (rule length_splice)
  with 3 show ?case by (auto dest!: apiCall_unchanged_queue)
qed

declare syncLoop.simps [simp del]

definition syncOfflineActions :: "store \<Rightarrow> app_state \<times> world \<Rightarrow> app_state \<times> world" where
  "syncOfflineActions h sw =
     (if length (syncQueue (fst sw)) = 0 then sw
      else (case syncLoop h 0 sw of
              (s', w') \<Rightarrow> (s', emit (Toast ''Offline actions synced successfully'' ''success'') w')))"

subsection \<open>Refreshing the page\<close>

text \<open>\<open>String.prototype.includes\<close>, by \<open>startsWith\<close> at some position.\<close>

fun includes_str :: "string \<Rightarrow> string \<Rightarrow> bool" where
  "includes_str [] p = (p = [])"
| "includes_str (c # cs) p = (startsWith (c # cs) p \<or> includes_str cs p)"

definition shouldRefreshCurrentPage :: "world \<Rightarrow> bool" where
  "shouldRefreshCurrentPage w =
     list_ex (\<lambda>path. includes_str (pathname w) path) [''/dashboard'', ''/queue'', ''/new-order'']"

text \<open>
  \<open>refreshCurrentPage\<close>: an error of the call is caught and logged. Its callers do not
  await it; here it runs to its end where it is called, so the fetch it issues is in the
  log at the place the caller issued it.
\<close>

definition refreshCurrentPage :: "app_state \<times> world \<Rightarrow> app_state \<times> world" where
  "refreshCurrentPage sw =
     (if shouldRefreshCurrentPage (snd sw) then
        (case apiCall ''/dashboard-stats'' ''GET'' None sw of
           (Inr response, s', w') \<Rightarrow>
             if env_success response \<and> env_data response
             then (s', emit UpdateDashboardStats w') else (s', w')
         | (Inl error, s', w') \<Rightarrow> (s', w'))
      else sw)"

subsection \<open>Order actions\<close>

text \<open>
  \<open>quickStartOrder(orderId)\<close> and \<open>quickCompleteOrder(orderId)\<close>; \<open>confirmed\<close> is the
  user's answer to the \<open>confirm\<close> dialog. On the success path the refresh, which the page
  does not await, is run to its end before the overlay is hidden; the page hides the
  overlay as soon as the refresh has issued its fetch.
\<close>

definition quickStartOrder :: "string \<Rightarrow> bool \<Rightarrow> app_state \<times> world \<Rightarrow> app_state \<times> world" where
  "quickStartOrder orderId confirmed sw =
     (if \<not> confirmed then sw
      else
        (case
           (case apiCall (''/orders/'' @ orderId @ ''/start'') ''POST'' None
                   (fst sw, emit (ShowLoading ''Starting order...'') (snd sw)) of
              (Inr response, s', w') \<Rightarrow>
                if env_success response
                then refreshCurrentPage (s', emit (Toast ''Order started successfully'' ''success'') w')
                else (s', emit (Toast (case env_error_message response of
                                         None \<Rightarrow> ''Failed to start order''
                                       | Some m \<Rightarrow> if m = [] then ''Failed to start order'' else m)
                                  ''error'') w')
            | (Inl error, s', w') \<Rightarrow>
                (s', emit (Toast ''Failed to start order. Please try again.'' ''error'') w'))
         of (s1, w1) \<Rightarrow> (s1, emit HideLoading w1)))"

definition quickCompleteOrder :: "string \<Rightarrow> bool \<Rightarrow> app_state \<times> world \<Rightarrow> app_state \<times> world" where
  "quickCompleteOrder orderId confirmed sw =
     (if \<not> confirmed then sw
      else
        (case
           (case apiCall (''/orders/'' @ orderId @ ''/finish'') ''POST'' None
                   (fst sw, emit (ShowLoading ''Completing order...'') (snd sw)) of
              (Inr response, s', w') \<Rightarrow>
                if env_success response
                then refreshCurrentPage (s', emit (Toast ''Order completed successfully'' ''success'') w')
                else (s', emit (Toast (case env_error_message response of
                                         None \<Rightarrow> ''Failed to complete order''
                                       | Some m \<Rightarrow> if m = [] then ''Failed to complete order'' else m)
                                  ''error'') w')
            | (Inl error, s', w') \<Rightarrow>
                (s', emit (Toast ''Failed to complete order. Please try again.'' ''error'') w'))
         of (s1, w1) \<Rightarrow> (s1, emit HideLoading w1)))"

subsection \<open>The refresh timer and the visibility handler\<close>

definition startRealTimeUpdates :: "app_state \<times> world \<Rightarrow> app_state \<times> world" where
  "startRealTimeUpdates sw =
     (case sw of (s, w) \<Rightarrow>
        if \<not> isOnline s then (s, w)
        else
          (let w1 = (case refreshTimer s of None \<Rightarrow> w | Some t \<Rightarrow> emit (ClearInterval t) w)
           in (s\<lparr>refreshTimer := Some (nextTimer w1)\<rparr>,
               (emit (SetInterval (nextTimer w1) refreshInterval) w1)\<lparr>nextTimer := nextTimer w1 + 1\<rparr>)))"

text \<open>The callback that \<open>startRealTimeUpdates\<close> hands to \<open>setInterval\<close>: one tick.\<close>

definition refreshTick :: "app_state \<times> world \<Rightarrow> app_state \<times> world" where
  "refreshTick sw =
     (if pageVisibility (fst sw) = ''visible'' \<and> isOnline (fst sw) then refreshCurrentPage sw else sw)"

definition stopRealTimeUpdates :: "app_state \<times> world \<Rightarrow> app_state \<times> world" where
  "stopRealTimeUpdates sw =
     (case sw of (s, w) \<Rightarrow>
        (case refreshTimer s of
           None \<Rightarrow> (s, w)
         | Some t \<Rightarrow> (s\<lparr>refreshTimer := None\<rparr>, emit (ClearInterval t) w)))"

definition handleVisibilityChange :: "app_state \<times> world \<Rightarrow> app_state \<times> world" where
  "handleVisibilityChange sw =
     (case sw of (s, w) \<Rightarrow>
        (let s1 = s\<lparr>pageVisibility := visibilityState w\<rparr>
         in if pageVisibility s1 = ''visible''
            then startRealTimeUpdates (refreshCurrentPage (s1, w))
            else stopRealTimeUpdates (s1, w)))"

section \<open>Predicates and concrete inputs used in the statements\<close>

text \<open>Every key of a cache, and of every cache of the storage, is a GET request.\<close>

definition only_get_cache :: "cache \<Rightarrow> bool" where
  "only_get_cache c = list_all (\<lambda>e. req_method (fst e) = ''GET'') c"

definition only_get_keys :: "cache_storage \<Rightarrow> bool" where
  "only_get_keys cs = list_all (\<lambda>e. only_get_cache (snd e)) cs"

text \<open>The fetch that \<open>apiCall(endpoint, method, data)\<close> issues, as it appears in the log.\<close>

definition fetch_of :: "string \<Rightarrow> string \<Rightarrow> string option \<Rightarrow> effect" where
  "fetch_of endpoint meth data =
     Fetch (apiBaseUrl @ endpoint) meth (if data \<noteq> None \<and> meth \<noteq> ''GET'' then data else None)"

text \<open>The fetch that replaying a queued action issues.\<close>

definition action_fetch :: "action \<Rightarrow> effect" where
  "action_fetch a =
     fetch_of (act_endpoint a) (case act_method a of None \<Rightarrow> ''GET'' | Some m \<Rightarrow> m) (act_data a)"

text \<open>
  The log of \<open>k\<close> failed attempts after \<open>r\<close> earlier retries: attempt, then the delay
  before retry \<open>j\<close>, which is \<open>1000 * j\<close> milliseconds, for \<open>j = r + 1, ..., r + k\<close>.
\<close>

definition backoff_log :: "effect \<Rightarrow> nat \<Rightarrow> nat \<Rightarrow> effect list" where
  "backoff_log f r k = concat (map (\<lambda>j. [f, Delay (1000 * j)]) [r + 1..<r + k + 1])"

text \<open>Responses, requests, states, networks and stores for the concrete runs below.\<close>

definition ok_response :: response where
  "ok_response = \<lparr>resp_status = 200, resp_type = ''basic'', resp_body = ''{}''\<rparr>"

definition api_request :: "string \<Rightarrow> string \<Rightarrow> request" where
  "api_request m path =
     \<lparr>req_origin = ''https://spot.example'', req_pathname = path, req_method = m,
      req_destination = []\<rparr>"

definition page_request :: "string \<Rightarrow> request" where
  "page_request path =
     \<lparr>req_origin = ''https://spot.example'', req_pathname = path, req_method = ''GET'',
      req_destination = ''document''\<rparr>"

definition ok_envelope :: envelope where
  "ok_envelope = \<lparr>env_success = True, env_data = True, env_error_message = None\<rparr>"

definition online_state :: app_state where
  "online_state = \<lparr>isOnline = True, syncQueue = [], refreshTimer = None, retryCount = 0,
     pageVisibility = ''visible''\<rparr>"

definition offline_state :: app_state where
  "offline_state = \<lparr>isOnline = False, syncQueue = [], refreshTimer = None, retryCount = 0,
     pageVisibility = ''visible''\<rparr>"

text \<open>A world on the dashboard page, visible, nothing issued yet, with the given network.\<close>

definition world_of :: "(nat \<Rightarrow> fetch_outcome) \<Rightarrow> world" where
  "world_of f = \<lparr>network = f, issued = 0, effects = [], pathname = ''/dashboard'',
     visibilityState = ''visible'', nextTimer = 1\<rparr>"

definition recovers_at :: "nat \<Rightarrow> nat \<Rightarrow> fetch_outcome" where
  "recovers_at k n = (if n < k then Rejected else Replied 200 (Some ok_envelope))"

definition http_500_until :: "nat \<Rightarrow> nat \<Rightarrow> fetch_outcome" where
  "http_500_until k n = (if n < k then Replied 500 None else Replied 200 (Some ok_envelope))"

definition always :: "fetch_outcome \<Rightarrow> nat \<Rightarrow> fetch_outcome" where
  "always out n = out"

text \<open>
  Two calls about to start: the order poll of an order page and the authentication check,
  both started by \<open>init\<close> without awaiting.
\<close>

definition two_calls :: "call list" where
  "two_calls = [((''/orders/7'', ''GET'', None), Ready), ((''/auth/profile'', ''GET'', None), Ready)]"

definition post_action :: "string \<Rightarrow> action" where
  "post_action endpoint = \<lparr>act_endpoint = endpoint, act_method = Some ''POST'', act_data = None\<rparr>"

text \<open>Object 1 is "start order 5", every other object is "finish order 5".\<close>

definition order5_store :: store where
  "order5_store r = (if r = 1 then post_action ''/orders/5/start'' else post_action ''/orders/5/finish'')"

text \<open>Objects 1, 2 and 3 start the orders 5, 6 and 7.\<close>

definition three_orders_store :: store where
  "three_orders_store r =
     (if r = 1 then post_action ''/orders/5/start''
      else if r = 2 then post_action ''/orders/6/start''
      else post_action ''/orders/7/start'')"

section \<open>Properties of the service worker\<close>

lemma fold_caches_delete:
  "fold caches_delete ns cs = filter (\<lambda>e. fst e \<notin> set ns) cs"
  by (induction ns arbitrary: cs) (auto simp: caches_delete_def intro: filter_cong)

lemma activate_filter:
  "activate cs = filter (\<lambda>e. fst e = CACHE_NAME \<or> fst e = RUNTIME_CACHE) cs"
  unfolding activate_def fold_caches_delete caches_keys_def
  by (rule filter_cong) auto

text \<open>
  C9. Activation deletes every cache whose name is neither \<open>spot-carwash-v1\<close> nor
  \<open>spot-runtime-v1\<close>: the names listed afterwards are the names listed before that are
  one of the two, so only the current names are left, and the storage afterwards is
  the earlier one without the caches of other names.
\<close>

theorem activate_keeps_only_current:
  "caches_keys (activate cs) =
     filter (\<lambda>n. n = ''spot-carwash-v1'' \<or> n = ''spot-runtime-v1'') (caches_keys cs)
   \<and> set (caches_keys (activate cs)) \<subseteq> {''spot-carwash-v1'', ''spot-runtime-v1''}
   \<and> activate cs = filter (\<lambda>e. fst e = ''spot-carwash-v1'' \<or> fst e = ''spot-runtime-v1'') cs"
  by (auto simp: activate_filter caches_keys_def filter_map comp_def CACHE_NAME_def RUNTIME_CACHE_def)

lemma cache_put_only_get: "only_get_cache c \<Longrightarrow> only_get_cache (cache_put req resp c)"
  by (auto simp: only_get_cache_def cache_put_def list_all_iff)

lemma put_fetched_only_get: "only_get_cache c \<Longrightarrow> only_get_cache (put_fetched net q c)"
  by (simp add: put_fetched_def cache_put_only_get split: option.splits)

lemma fold_put_fetched_only_get:
  "only_get_cache c \<Longrightarrow> only_get_cache (fold (put_fetched net) reqs c)"
  by (induction reqs arbitrary: c) (auto simp: put_fetched_only_get)

lemma cache_addAll_only_get: "only_get_cache c \<Longrightarrow> only_get_cache (cache_addAll net reqs c)"
  by (simp add: cache_addAll_def fold_put_fetched_only_get)

lemma caches_open_only_get: "only_get_keys cs \<Longrightarrow> only_get_keys (caches_open name cs)"
  by (simp add: caches_open_def only_get_keys_def only_get_cache_def)

lemma with_cache_only_get:
  assumes "only_get_keys cs" and "\<And>c. only_get_cache c \<Longrightarrow> only_get_cache (f c)"
  shows "only_get_keys (with_cache name f cs)"
  using caches_open_only_get [OF assms(1), of name] assms(2)
  by (auto simp: with_cache_def only_get_keys_def list_all_iff)

lemma install_only_get: "only_get_keys cs \<Longrightarrow> only_get_keys (install loc net cs)"
  unfolding install_def by (rule with_cache_only_get) (auto simp: cache_addAll_only_get)

lemma activate_only_get: "only_get_keys cs \<Longrightarrow> only_get_keys (activate cs)"
  by (simp add: activate_filter only_get_keys_def list_all_iff)

lemma fetchAndCache_only_get:
  "only_get_keys cs \<Longrightarrow> only_get_keys (snd (fetchAndCache req net cs))"
  by (auto simp: fetchAndCache_def with_cache_only_get cache_put_only_get split: option.splits)

lemma fetch_listener_only_get:
  "only_get_keys cs \<Longrightarrow> only_get_keys (snd (fetch_listener loc req net cs))"
  using fetchAndCache_only_get [of cs req net]
  by (auto simp: fetch_listener_def with_cache_only_get cache_put_only_get
      split: option.splits prod.splits)

lemma sw_step_only_get: "only_get_keys cs \<Longrightarrow> only_get_keys (sw_step loc ev cs)"
  by (cases ev) (simp_all add: install_only_get activate_only_get fetch_listener_only_get)

lemma sw_run_only_get: "only_get_keys cs \<Longrightarrow> only_get_keys (sw_run loc evs cs)"
  unfolding sw_run_def by (induction evs arbitrary: cs) (simp_all add: sw_step_only_get)

lemma map_of_caches_open_other:
  "n \<noteq> name \<Longrightarrow> map_of (caches_open name cs) n = map_of cs n"
  by (induction cs) (auto simp: caches_open_def)

lemma map_of_map_upd_other:
  "n \<noteq> name \<Longrightarrow> map_of (map (\<lambda>e. if fst e = name then (fst e, f (snd e)) else e) cs) n = map_of cs n"
  by (induction cs) auto

lemma map_of_with_cache_other:
  "n \<noteq> name \<Longrightarrow> map_of (with_cache name f cs) n = map_of cs n"
  by (simp add: with_cache_def map_of_map_upd_other map_of_caches_open_other)

lemma map_of_map_upd_same:
  "map_of (map (\<lambda>e. if fst e = name then (fst e, f (snd e)) else e) cs) name = map_option f (map_of cs name)"
  by (induction cs) auto

lemma map_of_caches_open_same:
  "map_of (caches_open name cs) name = Some (case map_of cs name of None \<Rightarrow> [] | Some c \<Rightarrow> c)"
proof (cases "map_of cs name")
  case None
  then have "name \<notin> set (map fst cs)" by (simp add: map_of_eq_None_iff)
  with None show ?thesis by (simp add: caches_open_def map_add_def)
next
  case (Some c)
  then have "name \<in> set (map fst cs)" by (metis map_of_eq_None_iff option.distinct(1) set_map)
  with Some show ?thesis by (simp add: caches_open_def)
qed

lemma map_of_with_cache_same:
  "map_of (with_cache name f cs) name = Some (f (case map_of cs name of None \<Rightarrow> [] | Some c \<Rightarrow> c))"
  by (simp add: with_cache_def map_of_map_upd_same map_of_caches_open_same)

lemma cache_lookup_filter_None: "cache_lookup req (filter (\<lambda>e. \<not> same_url (fst e) req) c) = None"
  by (induction c) auto

lemma cache_lookup_append:
  "cache_lookup req (xs @ ys) = (case cache_lookup req xs of Some r \<Rightarrow> Some r | None \<Rightarrow> cache_lookup req ys)"
  by (induction xs) auto

lemma cache_match_put:
  "req_method req = ''GET'' \<Longrightarrow> resp_status resp \<noteq> 206 \<Longrightarrow> cache_match req (cache_put req resp c) = Some resp"
proof -
  have "cache_lookup req (filter (\<lambda>e. \<not> same_url (fst e) req) c) = None"
    by (rule cache_lookup_filter_None)
  moreover have "cache_lookup req [(req, resp)] = Some resp" by (simp add: same_url_def)
  ultimately show "req_method req = ''GET'' \<Longrightarrow> resp_status resp \<noteq> 206 \<Longrightarrow> ?thesis"
    by (simp add: cache_match_def cache_put_def cache_lookup_append)
qed

lemma map_of_filter_fst:
  "map_of (filter (\<lambda>e. P (fst e)) cs) n = (if P n then map_of cs n else None)"
  by (induction cs) auto

lemma map_of_activate: "map_of (activate cs) CACHE_NAME = map_of cs CACHE_NAME"
  using map_of_filter_fst [of "\<lambda>n. n = CACHE_NAME \<or> n = RUNTIME_CACHE" cs CACHE_NAME]
  by (simp add: activate_filter)

lemma fetchAndCache_other:
  "n \<noteq> RUNTIME_CACHE \<Longrightarrow> map_of (snd (fetchAndCache req net cs)) n = map_of cs n"
  by (auto simp: fetchAndCache_def map_of_with_cache_other split: option.splits)

lemma fetch_listener_other:
  "n \<noteq> RUNTIME_CACHE \<Longrightarrow> map_of (snd (fetch_listener loc req net cs)) n = map_of cs n"
  using fetchAndCache_other [of n req net cs]
  by (auto simp: fetch_listener_def map_of_with_cache_other split: option.splits prod.splits)

lemma cache_put_not_get: "req_method req \<noteq> ''GET'' \<Longrightarrow> cache_put req resp = (\<lambda>c. c)"
  by (rule ext) (simp add: cache_put_def)

lemma entries_with_cache_id:
  "concat (map snd (with_cache name (\<lambda>c. c) cs)) = concat (map snd cs)"
proof -
  have "map (\<lambda>e. if fst e = name then (fst e, snd e) else e) xs = xs" for xs :: cache_storage
    by (induction xs) auto
  then show ?thesis by (simp add: with_cache_def caches_open_def)
qed

lemma fetch_listener_not_get:
  "req_method req \<noteq> ''GET'' \<Longrightarrow>
   concat (map snd (snd (fetch_listener loc req net cs))) = concat (map snd cs)"
  by (auto simp: fetch_listener_def fetchAndCache_def cache_put_not_get entries_with_cache_id
      split: option.splits prod.splits if_splits)

text \<open>
  C6. No mutating request is ever stored as a cache entry. The fetch listener has no
  test of the method: its API branch hands every ok response to \<open>cache.put\<close>, and it is
  \<open>cache.put\<close> that refuses a request whose method is not GET. So in every storage the
  worker reaches from the empty one, by any events, every key of every cache is a GET
  request; the fetch listener keeps that invariant from any storage; and a request
  whose method is not GET adds no entry to any cache.
\<close>

theorem no_mutating_request_cached:
  "only_get_keys (sw_run loc evs [])
   \<and> (only_get_keys cs \<longrightarrow> only_get_keys (snd (fetch_listener loc req net cs)))
   \<and> (req_method req \<noteq> ''GET'' \<longrightarrow>
        concat (map snd (snd (fetch_listener loc req net cs))) = concat (map snd cs))"
proof -
  have "only_get_keys []" by (simp add: only_get_keys_def)
  then have "only_get_keys (sw_run loc evs [])" by (rule sw_run_only_get)
  then show ?thesis
    by (simp add: fetch_listener_only_get fetch_listener_not_get)
qed

theorem no_mutating_request_cached_witness:
  "only_get_keys [(''spot-runtime-v1'', [(api_request ''GET'' ''/api/dashboard-stats'', ok_response)])]
   \<and> snd (fetch_listener ''https://spot.example'' (api_request ''POST'' ''/api/orders/5/start'')
        (Some ok_response)
        [(''spot-runtime-v1'', [(api_request ''GET'' ''/api/dashboard-stats'', ok_response)])])
     = [(''spot-runtime-v1'', [(api_request ''GET'' ''/api/dashboard-stats'', ok_response)])]
   \<and> only_get_keys (snd (fetch_listener ''https://spot.example''
        (api_request ''POST'' ''/api/orders/5/start'') (Some ok_response)
        [(''spot-runtime-v1'', [(api_request ''GET'' ''/api/dashboard-stats'', ok_response)])]))
   \<and> sw_run ''https://spot.example''
        [FetchEvent (api_request ''POST'' ''/api/orders/5/start'') (Some ok_response),
         FetchEvent (api_request ''GET'' ''/api/dashboard-stats'') (Some ok_response)] []
     = [(''spot-runtime-v1'', [(api_request ''GET'' ''/api/dashboard-stats'', ok_response)])]"
  using no_mutating_request_cached [of "''https://spot.example''" "[]"
      "[(''spot-runtime-v1'', [(api_request ''GET'' ''/api/dashboard-stats'', ok_response)])]"
      "api_request ''POST'' ''/api/orders/5/start''" "Some ok_response"]
  by (simp add: only_get_keys_def only_get_cache_def api_request_def ok_response_def
      fetch_listener_def sw_run_def with_cache_def caches_open_def cache_put_def resp_ok_def
      RUNTIME_CACHE_def same_url_def)

text \<open>
  C10. What the fetch listener caches goes to the runtime cache \<open>spot-runtime-v1\<close> and
  nowhere else: \<open>fetchAndCache\<close>, and the whole listener, leave every cache of another
  name as it was; for a same-origin request outside \<open>/api/\<close> the listener's effect on
  the storage is that of \<open>fetchAndCache\<close>; a GET request answered with status 200 and a
  type other than \<open>error\<close> is afterwards in the runtime cache with that response; and no
  event but install changes the static cache \<open>spot-carwash-v1\<close>.
\<close>

theorem lazy_caching_goes_to_runtime:
  "(n \<noteq> ''spot-runtime-v1'' \<longrightarrow> map_of (snd (fetchAndCache req net cs)) n = map_of cs n)
   \<and> (n \<noteq> ''spot-runtime-v1'' \<longrightarrow> map_of (snd (fetch_listener loc req net cs)) n = map_of cs n)
   \<and> (req_origin req = loc \<and> \<not> startsWith (req_pathname req) ''/api/'' \<longrightarrow>
        snd (fetch_listener loc req net cs) = snd (fetchAndCache req net cs))
   \<and> (req_method req = ''GET'' \<and> resp_status resp = 200 \<and> resp_type resp \<noteq> ''error'' \<longrightarrow>
        (\<exists>c. map_of (snd (fetchAndCache req (Some resp) cs)) ''spot-runtime-v1'' = Some c
             \<and> cache_match req c = Some resp))
   \<and> ((\<forall>f. ev \<noteq> InstallEvent f) \<longrightarrow>
        map_of (sw_step loc ev cs) ''spot-carwash-v1'' = map_of cs ''spot-carwash-v1'')"
proof -
  have a: "n \<noteq> ''spot-runtime-v1'' \<longrightarrow> map_of (snd (fetchAndCache req net cs)) n = map_of cs n"
    using fetchAndCache_other [of n req net cs] by (simp add: RUNTIME_CACHE_def)
  have b: "n \<noteq> ''spot-runtime-v1'' \<longrightarrow> map_of (snd (fetch_listener loc req net cs)) n = map_of cs n"
    using fetch_listener_other [of n loc req net cs] by (simp add: RUNTIME_CACHE_def)
  have c: "req_method req = ''GET'' \<and> resp_status resp = 200 \<and> resp_type resp \<noteq> ''error'' \<longrightarrow>
        (\<exists>c. map_of (snd (fetchAndCache req (Some resp) cs)) ''spot-runtime-v1'' = Some c
             \<and> cache_match req c = Some resp)"
    using map_of_with_cache_same [of RUNTIME_CACHE "cache_put req resp" cs]
    by (simp add: fetchAndCache_def cache_match_put RUNTIME_CACHE_def)
  have d: "(\<forall>f. ev \<noteq> InstallEvent f) \<longrightarrow>
        map_of (sw_step loc ev cs) ''spot-carwash-v1'' = map_of cs ''spot-carwash-v1''"
  proof (cases ev)
    case (FetchEvent q out)
    then show ?thesis
      using fetch_listener_other [of CACHE_NAME loc q out cs]
      by (simp add: CACHE_NAME_def RUNTIME_CACHE_def)
  next
    case ActivateEvent
    then show ?thesis using map_of_activate [of cs] by (simp add: CACHE_NAME_def)
  qed simp_all
  have e: "req_origin req = loc \<and> \<not> startsWith (req_pathname req) ''/api/'' \<longrightarrow>
        snd (fetch_listener loc req net cs) = snd (fetchAndCache req net cs)"
    by (auto simp: fetch_listener_def split: option.splits prod.splits)
  from a b c d e show ?thesis by blast
qed

theorem lazy_caching_goes_to_runtime_witness:
  "map_of (snd (fetch_listener ''https://spot.example'' (page_request ''/customers'') (Some ok_response)
        [(''spot-carwash-v1'', [(page_request ''/'', ok_response)])])) ''spot-carwash-v1''
     = Some [(page_request ''/'', ok_response)]
   \<and> snd (fetchAndCache (page_request ''/customers'') (Some ok_response)
        [(''spot-carwash-v1'', [(page_request ''/'', ok_response)])])
     = [(''spot-carwash-v1'', [(page_request ''/'', ok_response)]),
        (''spot-runtime-v1'', [(page_request ''/customers'', ok_response)])]
   \<and> map_of (sw_step ''https://spot.example'' (FetchEvent (page_request ''/customers'') (Some ok_response))
        [(''spot-carwash-v1'', [(page_request ''/'', ok_response)])]) ''spot-carwash-v1''
     = Some [(page_request ''/'', ok_response)]"
  using lazy_caching_goes_to_runtime [of "''spot-carwash-v1''" "page_request ''/customers''"
      "Some ok_response" "[(''spot-carwash-v1'', [(page_request ''/'', ok_response)])]"
      "''https://spot.example''" ok_response
      "FetchEvent (page_request ''/customers'') (Some ok_response)"]
  by (simp add: fetchAndCache_def with_cache_def caches_open_def cache_put_def
      page_request_def ok_response_def RUNTIME_CACHE_def same_url_def)

lemma keys_cache_put: "fst ` set (cache_put q r c) \<subseteq> insert q (fst ` set c)"
  by (auto simp: cache_put_def)

lemma keys_put_fetched: "fst ` set (put_fetched net q c) \<subseteq> insert q (fst ` set c)"
  using keys_cache_put [of q _ c] by (auto simp: put_fetched_def split: option.splits)

lemma keys_fold_put_fetched:
  "fst ` set (fold (put_fetched net) reqs c) \<subseteq> set reqs \<union> fst ` set c"
proof (induction reqs arbitrary: c)
  case Nil
  then show ?case by simp
next
  case (Cons q reqs)
  have "fst ` set (fold (put_fetched net) reqs (put_fetched net q c))
          \<subseteq> set reqs \<union> fst ` set (put_fetched net q c)"
    by (rule Cons.IH)
  also have "\<dots> \<subseteq> set reqs \<union> insert q (fst ` set c)"
    using keys_put_fetched [of net q c] by blast
  finally show ?case by auto
qed

lemma keys_cache_addAll: "fst ` set (cache_addAll net reqs []) \<subseteq> set reqs"
proof (cases "list_all (\<lambda>q. addAll_ok (net q)) reqs")
  case True
  then show ?thesis
    using keys_fold_put_fetched [of net reqs "[]"] by (simp add: cache_addAll_def)
next
  case False
  then show ?thesis by (simp add: cache_addAll_def)
qed

lemma cache_lookup_None:
  "(\<And>k. k \<in> fst ` set c \<Longrightarrow> \<not> same_url k q) \<Longrightarrow> cache_lookup q c = None"
  by (induction c) auto

lemma install_fresh:
  "install loc net [] = [(CACHE_NAME, cache_addAll net (map (new_request loc) STATIC_ASSETS) [])]"
  by (simp add: install_def with_cache_def caches_open_def)

lemma static_cache_misses:
  assumes "p \<notin> set STATIC_ASSETS"
  shows "cache_lookup \<lparr>req_origin = loc, req_pathname = p, req_method = m, req_destination = d\<rparr>
           (cache_addAll net (map (new_request loc) STATIC_ASSETS) []) = None"
proof (rule cache_lookup_None)
  fix k
  assume "k \<in> fst ` set (cache_addAll net (map (new_request loc) STATIC_ASSETS) [])"
  with keys_cache_addAll have "k \<in> set (map (new_request loc) STATIC_ASSETS)" by blast
  then obtain a where "a \<in> set STATIC_ASSETS" and "k = new_request loc a" by auto
  with assms show "\<not> same_url k \<lparr>req_origin = loc, req_pathname = p, req_method = m, req_destination = d\<rparr>"
    by (auto simp: same_url_def new_request_def)
qed

text \<open>
  C8. The listener's fallback is \<open>caches.match('/offline.html')\<close>, but
  \<open>/offline.html\<close> is not in \<open>STATIC_ASSETS\<close>, so install never stores it. After
  install and activate on a fresh storage, whatever the network answered during install,
  a document request for \<open>/customers\<close> with the network down is a cache miss and a
  failed fetch, and the listener responds with \<open>undefined\<close>, not with the offline page.
\<close>

theorem offline_fallback_not_precached:
  "fetch_listener loc
     \<lparr>req_origin = loc, req_pathname = ''/customers'', req_method = ''GET'',
      req_destination = ''document''\<rparr>
     None (sw_run loc [InstallEvent net, ActivateEvent] [])
   = (Respond None, sw_run loc [InstallEvent net, ActivateEvent] [])"
proof -
  have run: "sw_run loc [InstallEvent net, ActivateEvent] []
      = [(CACHE_NAME, cache_addAll net (map (new_request loc) STATIC_ASSETS) [])]"
    by (simp add: sw_run_def install_fresh activate_filter)
  have m1: "cache_lookup \<lparr>req_origin = loc, req_pathname = ''/customers'', req_method = ''GET'',
      req_destination = ''document''\<rparr> (cache_addAll net (map (new_request loc) STATIC_ASSETS) []) = None"
    by (rule static_cache_misses) (simp add: STATIC_ASSETS_def)
  have m2: "cache_lookup (new_request loc ''/offline.html'')
      (cache_addAll net (map (new_request loc) STATIC_ASSETS) []) = None"
    using static_cache_misses [of "''/offline.html''" loc "''GET''" "[]" net]
    by (simp add: STATIC_ASSETS_def new_request_def)
  show ?thesis
    unfolding run
    by (simp add: fetch_listener_def fetchAndCache_def cache_match_def m1 m2)
qed

text \<open>
  The fallback itself is as intended: on a cache miss with the network down, a document
  request is answered with whatever the caches hold for \<open>/offline.html\<close>, and any other
  request with \<open>undefined\<close>.
\<close>

lemma offline_fallback_lookup:
  assumes "req_origin req = loc" and "\<not> startsWith (req_pathname req) ''/api/''"
    and "caches_match req cs = None"
  shows "fetch_listener loc req None cs =
     (if req_destination req = ''document''
      then Respond (caches_match (new_request loc ''/offline.html'') cs)
      else Respond None, cs)"
  using assms by (simp add: fetch_listener_def fetchAndCache_def)

section \<open>Properties of the page application\<close>

lemma backoff_log_0: "backoff_log f r 0 = []"
  by (simp add: backoff_log_def)

lemma backoff_log_Suc: "backoff_log f r (Suc k) = f # Delay (1000 * (r + 1)) # backoff_log f (r + 1) k"
  by (simp add: backoff_log_def upt_conv_Cons)

lemma sent_eq:
  "sent endpoint meth data w =
     w\<lparr>effects := effects w @ [fetch_of endpoint meth data], issued := issued w + 1\<rparr>"
  by (simp add: sent_def emit_def fetch_of_def)

lemma apiCall_retries:
  assumes "isOnline s" and "retryCount s + k \<le> maxRetries"
    and "\<forall>j<k. isl (attempt (network w (issued w + j)))"
  shows "apiCall endpoint meth data (s, w) =
     apiCall endpoint meth data
       (s\<lparr>retryCount := retryCount s + k\<rparr>,
        w\<lparr>effects := effects w @ backoff_log (fetch_of endpoint meth data) (retryCount s) k,
          issued := issued w + k\<rparr>)"
  using assms
proof (induction k arbitrary: s w)
  case 0
  then show ?case by (simp add: backoff_log_0)
next
  case (Suc k)
  let ?f = "fetch_of endpoint meth data"
  let ?s1 = "s\<lparr>retryCount := retryCount s + 1\<rparr>"
  let ?w1 = "emit (Delay (1000 * (retryCount s + 1))) (sent endpoint meth data w)"
  from Suc.prems(3) have "isl (attempt (network w (issued w)))" by auto
  then obtain error where err: "attempt (network w (issued w)) = Inl error"
    by (cases "attempt (network w (issued w))") auto
  have lt: "retryCount s < maxRetries" using Suc.prems(2) by simp
  have step: "apiCall endpoint meth data (s, w) = apiCall endpoint meth data (?s1, ?w1)"
    by (rule apiCall_retry [OF err Suc.prems(1) lt])
  have p1: "isOnline ?s1" using Suc.prems(1) by simp
  have p2: "retryCount ?s1 + k \<le> maxRetries" using Suc.prems(2) by simp
  have p3: "\<forall>j<k. isl (attempt (network ?w1 (issued ?w1 + j)))"
  proof (intro allI impI)
    fix j assume "j < k"
    then have "isl (attempt (network w (issued w + Suc j)))" using Suc.prems(3) by auto
    then show "isl (attempt (network ?w1 (issued ?w1 + j)))" by (simp add: sent_eq emit_def)
  qed
  have "apiCall endpoint meth data (?s1, ?w1) =
     apiCall endpoint meth data
       (?s1\<lparr>retryCount := retryCount ?s1 + k\<rparr>,
        ?w1\<lparr>effects := effects ?w1 @ backoff_log ?f (retryCount ?s1) k,
          issued := issued ?w1 + k\<rparr>)"
    by (rule Suc.IH [OF p1 p2 p3])
  also have "?s1\<lparr>retryCount := retryCount ?s1 + k\<rparr> = s\<lparr>retryCount := retryCount s + Suc k\<rparr>"
    by simp
  also have "?w1\<lparr>effects := effects ?w1 @ backoff_log ?f (retryCount ?s1) k,
          issued := issued ?w1 + k\<rparr>
      = w\<lparr>effects := effects w @ backoff_log ?f (retryCount s) (Suc k),
          issued := issued w + Suc k\<rparr>"
    by (simp add: sent_eq emit_def backoff_log_Suc)
  finally show ?case using step by simp
qed

lemma apiCall_succeeds_after:
  assumes "isOnline s" and "retryCount s + k \<le> maxRetries"
    and "\<forall>j<k. isl (attempt (network w (issued w + j)))"
    and "attempt (network w (issued w + k)) = Inr result"
  shows "apiCall endpoint meth data (s, w) =
     (Inr result, s\<lparr>retryCount := 0\<rparr>,
      w\<lparr>effects := effects w @ backoff_log (fetch_of endpoint meth data) (retryCount s) k
                       @ [fetch_of endpoint meth data],
        issued := issued w + k + 1\<rparr>)"
proof -
  let ?s = "s\<lparr>retryCount := retryCount s + k\<rparr>"
  let ?w = "w\<lparr>effects := effects w @ backoff_log (fetch_of endpoint meth data) (retryCount s) k,
          issued := issued w + k\<rparr>"
  have "attempt (network ?w (issued ?w)) = Inr result" using assms(4) by simp
  then have "apiCall endpoint meth data (?s, ?w) = (Inr result, ?s\<lparr>retryCount := 0\<rparr>, sent endpoint meth data ?w)"
    by (rule apiCall_success)
  with apiCall_retries [OF assms(1-3), of endpoint meth data] show ?thesis
    by (simp add: sent_eq)
qed

lemma apiCall_gives_up_after:
  assumes "isOnline s" and "retryCount s + k = maxRetries"
    and "\<forall>j<k. isl (attempt (network w (issued w + j)))"
    and "attempt (network w (issued w + k)) = Inl error"
  shows "apiCall endpoint meth data (s, w) =
     (Inl error, s\<lparr>retryCount := maxRetries\<rparr>,
      w\<lparr>effects := effects w @ backoff_log (fetch_of endpoint meth data) (retryCount s) k
                       @ [fetch_of endpoint meth data],
        issued := issued w + k + 1\<rparr>)"
proof -
  let ?s = "s\<lparr>retryCount := retryCount s + k\<rparr>"
  let ?w = "w\<lparr>effects := effects w @ backoff_log (fetch_of endpoint meth data) (retryCount s) k,
          issued := issued w + k\<rparr>"
  have le: "retryCount s + k \<le> maxRetries" using assms(2) by simp
  have a: "attempt (network ?w (issued ?w)) = Inl error" using assms(4) by simp
  have b: "\<not> (isOnline ?s \<and> retryCount ?s < maxRetries)" using assms(2) by simp
  have "apiCall endpoint meth data (?s, ?w) = (Inl error, ?s, sent endpoint meth data ?w)"
    by (rule apiCall_fail [OF a b])
  with apiCall_retries [OF assms(1) le assms(3), of endpoint meth data] assms(2) show ?thesis
    by (simp add: sent_eq)
qed

lemma backoff_log_3:
  "backoff_log f 0 3 = [f, Delay 1000, f, Delay 2000, f, Delay 3000]"
  by (simp add: backoff_log_def upt_conv_Cons numeral_3_eq_3)

lemma run_call_Finished: "run_call endpoint meth data (Finished r) (s, w) = (r, s, w)"
  by (simp add: run_call.simps [of endpoint meth data "Finished r" s w])

lemma run_call_Ready:
  "run_call endpoint meth data Ready (s, w) =
     run_call endpoint meth data (Fetching (issued w)) (s, sent endpoint meth data w)"
  by (simp add: run_call.simps [of endpoint meth data Ready s w] call_step_def)

lemma run_call_Delaying:
  "run_call endpoint meth data (Delaying ms) (s, w) =
     run_call endpoint meth data (Fetching (issued w)) (s, sent endpoint meth data w)"
  by (simp add: run_call.simps [of endpoint meth data "Delaying ms" s w] call_step_def)

lemma run_call_Fetching:
  "run_call endpoint meth data (Fetching n) (s, w) =
     (case call_step endpoint meth data (Fetching n) (s, w) of
        (phase', s', w') \<Rightarrow> run_call endpoint meth data phase' (s', w'))"
  by (simp add: run_call.simps [of endpoint meth data "Fetching n" s w])

lemma network_sent [simp]: "network (sent endpoint meth data w) = network w"
  by (simp add: sent_def emit_def)

lemma apiCall_run_call:
  "apiCall endpoint meth data (s, w) = run_call endpoint meth data Ready (s, w)"
proof (induction "maxRetries - retryCount s" arbitrary: s w)
  case 0
  show ?case
  proof (cases "attempt (network w (issued w))")
    case (Inr result)
    then show ?thesis
      by (simp add: apiCall_success run_call_Ready run_call_Fetching call_step_def run_call_Finished)
  next
    case (Inl error)
    with 0 show ?thesis
      by (simp add: apiCall_fail run_call_Ready run_call_Fetching call_step_def run_call_Finished)
  qed
next
  case (Suc k)
  show ?case
  proof (cases "attempt (network w (issued w))")
    case (Inr result)
    then show ?thesis
      by (simp add: apiCall_success run_call_Ready run_call_Fetching call_step_def run_call_Finished)
  next
    case (Inl error)
    show ?thesis
    proof (cases "isOnline s")
      case True
      let ?s1 = "s\<lparr>retryCount := retryCount s + 1\<rparr>"
      let ?w1 = "emit (Delay (1000 * (retryCount s + 1))) (sent endpoint meth data w)"
      have lt: "retryCount s < maxRetries" using Suc(2) by simp
      have "k = maxRetries - retryCount ?s1" using Suc(2) by simp
      then have ih: "apiCall endpoint meth data (?s1, ?w1) = run_call endpoint meth data Ready (?s1, ?w1)"
        by (rule Suc(1))
      have "run_call endpoint meth data Ready (s, w) =
          run_call endpoint meth data (Delaying (1000 * (retryCount s + 1))) (?s1, ?w1)"
        using Inl True lt
        by (simp add: run_call_Ready run_call_Fetching call_step_def)
      also have "\<dots> = run_call endpoint meth data Ready (?s1, ?w1)"
        by (simp add: run_call_Ready run_call_Delaying)
      finally show ?thesis
        using ih by (simp add: apiCall_retry [OF Inl True lt])
    next
      case False
      with Inl show ?thesis
        by (simp add: apiCall_fail run_call_Ready run_call_Fetching call_step_def run_call_Finished)
    qed
  qed
qed

text \<open>
  C5, as amended. \<open>apiCall\<close> is the call's steps run with nothing in between. For such an
  isolated call, started with the retry counter at zero while online: when the first
  \<open>k\<close> attempts fail (\<open>k \<le> 3\<close>) and the next one succeeds, the call returns that
  result and the log is the same fetch \<open>k + 1\<close> times, with a delay of \<open>1000 * j\<close> ms
  before retry \<open>j\<close>; when four attempts in a row fail, the call has retried three times
  with delays 1000, 2000 and 3000 and then throws the last error; while offline a failed
  attempt throws at once, after one fetch and no delay. A rejected fetch is such a
  failure. Whatever else is in flight, a failed attempt that finds the page online and
  the shared counter \<open>c\<close> below 3 sets the counter to \<open>c + 1\<close> and waits
  \<open>1000 * (c + 1)\<close> ms, a failed attempt that finds the page offline or the counter at
  3 throws at once, and the end of a delay reissues the same fetch.
\<close>

theorem isolated_call_retry_backoff:
  "apiCall endpoint meth data (s, w) = run_call endpoint meth data Ready (s, w)
   \<and> (isOnline s \<and> retryCount s = 0 \<and> k \<le> 3
      \<and> (\<forall>j<k. isl (attempt (network w (issued w + j))))
      \<and> attempt (network w (issued w + k)) = Inr result \<longrightarrow>
    run_call endpoint meth data Ready (s, w) =
      (Inr result, s\<lparr>retryCount := 0\<rparr>,
       w\<lparr>effects := effects w
            @ concat (map (\<lambda>j. [fetch_of endpoint meth data, Delay (1000 * j)]) [1..<k + 1])
            @ [fetch_of endpoint meth data],
         issued := issued w + k + 1\<rparr>))
   \<and> (isOnline s \<and> retryCount s = 0
      \<and> (\<forall>j<3. isl (attempt (network w (issued w + j))))
      \<and> attempt (network w (issued w + 3)) = Inl error \<longrightarrow>
    run_call endpoint meth data Ready (s, w) =
      (Inl error, s\<lparr>retryCount := 3\<rparr>,
       w\<lparr>effects := effects w
            @ [fetch_of endpoint meth data, Delay 1000, fetch_of endpoint meth data, Delay 2000,
               fetch_of endpoint meth data, Delay 3000, fetch_of endpoint meth data],
         issued := issued w + 4\<rparr>))
   \<and> (\<not> isOnline s \<and> attempt (network w (issued w)) = Inl error \<longrightarrow>
    run_call endpoint meth data Ready (s, w) =
      (Inl error, s, w\<lparr>effects := effects w @ [fetch_of endpoint meth data], issued := issued w + 1\<rparr>))
   \<and> attempt Rejected = Inl NetworkError
   \<and> (attempt (network w n) = Inl error \<and> isOnline s \<and> retryCount s < 3 \<longrightarrow>
    call_step endpoint meth data (Fetching n) (s, w) =
      (Delaying (1000 * (retryCount s + 1)), s\<lparr>retryCount := retryCount s + 1\<rparr>,
       w\<lparr>effects := effects w @ [Delay (1000 * (retryCount s + 1))]\<rparr>))
   \<and> (attempt (network w n) = Inl error \<and> \<not> (isOnline s \<and> retryCount s < 3) \<longrightarrow>
    call_step endpoint meth data (Fetching n) (s, w) = (Finished (Inl error), s, w))
   \<and> call_step endpoint meth data (Delaying ms) (s, w) =
      (Fetching (issued w), s,
       w\<lparr>effects := effects w @ [fetch_of endpoint meth data], issued := issued w + 1\<rparr>)"
proof (intro conjI impI)
  show "apiCall endpoint meth data (s, w) = run_call endpoint meth data Ready (s, w)"
    by (rule apiCall_run_call)
next
  assume h: "isOnline s \<and> retryCount s = 0 \<and> k \<le> 3
      \<and> (\<forall>j<k. isl (attempt (network w (issued w + j))))
      \<and> attempt (network w (issued w + k)) = Inr result"
  then have "retryCount s + k \<le> maxRetries" by (simp add: maxRetries_def)
  with h apiCall_succeeds_after [of s k w result endpoint meth data]
  show "run_call endpoint meth data Ready (s, w) =
      (Inr result, s\<lparr>retryCount := 0\<rparr>,
       w\<lparr>effects := effects w
            @ concat (map (\<lambda>j. [fetch_of endpoint meth data, Delay (1000 * j)]) [1..<k + 1])
            @ [fetch_of endpoint meth data],
         issued := issued w + k + 1\<rparr>)"
    by (simp add: backoff_log_def apiCall_run_call)
next
  assume h: "isOnline s \<and> retryCount s = 0
      \<and> (\<forall>j<3. isl (attempt (network w (issued w + j))))
      \<and> attempt (network w (issued w + 3)) = Inl error"
  then have "retryCount s + 3 = maxRetries" by (simp add: maxRetries_def)
  with h apiCall_gives_up_after [of s 3 w error endpoint meth data]
  show "run_call endpoint meth data Ready (s, w) =
      (Inl error, s\<lparr>retryCount := 3\<rparr>,
       w\<lparr>effects := effects w
            @ [fetch_of endpoint meth data, Delay 1000, fetch_of endpoint meth data, Delay 2000,
               fetch_of endpoint meth data, Delay 3000, fetch_of endpoint meth data],
         issued := issued w + 4\<rparr>)"
    by (simp add: backoff_log_3 maxRetries_def apiCall_run_call)
next
  assume h: "\<not> isOnline s \<and> attempt (network w (issued w)) = Inl error"
  then have "apiCall endpoint meth data (s, w) = (Inl error, s, sent endpoint meth data w)"
    by (simp add: apiCall_fail)
  then show "run_call endpoint meth data Ready (s, w) =
      (Inl error, s, w\<lparr>effects := effects w @ [fetch_of endpoint meth data], issued := issued w + 1\<rparr>)"
    by (simp add: sent_eq apiCall_run_call)
next
  show "attempt Rejected = Inl NetworkError" by (simp add: attempt_def)
next
  assume "attempt (network w n) = Inl error \<and> isOnline s \<and> retryCount s < 3"
  then show "call_step endpoint meth data (Fetching n) (s, w) =
      (Delaying (1000 * (retryCount s + 1)), s\<lparr>retryCount := retryCount s + 1\<rparr>,
       w\<lparr>effects := effects w @ [Delay (1000 * (retryCount s + 1))]\<rparr>)"
    by (simp add: call_step_def maxRetries_def emit_def)
next
  assume "attempt (network w n) = Inl error \<and> \<not> (isOnline s \<and> retryCount s < 3)"
  then show "call_step endpoint meth data (Fetching n) (s, w) = (Finished (Inl error), s, w)"
    by (auto simp: call_step_def maxRetries_def)
next
  show "call_step endpoint meth data (Delaying ms) (s, w) =
      (Fetching (issued w), s,
       w\<lparr>effects := effects w @ [fetch_of endpoint meth data], issued := issued w + 1\<rparr>)"
    by (simp add: call_step_def sent_eq)
qed

theorem isolated_call_retry_backoff_witness:
  "run_call ''/search'' ''GET'' None Ready (online_state, world_of (recovers_at 2)) =
     (Inr ok_envelope, online_state,
      (world_of (recovers_at 2))
        \<lparr>effects := [Fetch ''/api/search'' ''GET'' None, Delay 1000,
                     Fetch ''/api/search'' ''GET'' None, Delay 2000,
                     Fetch ''/api/search'' ''GET'' None],
         issued := 3\<rparr>)
   \<and> run_call ''/search'' ''GET'' None Ready (online_state, world_of (always Rejected)) =
     (Inl NetworkError, online_state\<lparr>retryCount := 3\<rparr>,
      (world_of (always Rejected))
        \<lparr>effects := [Fetch ''/api/search'' ''GET'' None, Delay 1000,
                     Fetch ''/api/search'' ''GET'' None, Delay 2000,
                     Fetch ''/api/search'' ''GET'' None, Delay 3000,
                     Fetch ''/api/search'' ''GET'' None],
         issued := 4\<rparr>)
   \<and> run_call ''/search'' ''GET'' None Ready (offline_state, world_of (always Rejected)) =
     (Inl NetworkError, offline_state,
      (world_of (always Rejected))\<lparr>effects := [Fetch ''/api/search'' ''GET'' None], issued := 1\<rparr>)
   \<and> call_step ''/search'' ''GET'' None (Fetching 0)
        (online_state\<lparr>retryCount := 1\<rparr>, world_of (always Rejected)) =
     (Delaying 2000, online_state\<lparr>retryCount := 2\<rparr>,
      (world_of (always Rejected))\<lparr>effects := [Delay 2000]\<rparr>)
   \<and> call_step ''/search'' ''GET'' None (Fetching 0)
        (online_state\<lparr>retryCount := 3\<rparr>, world_of (always Rejected)) =
     (Finished (Inl NetworkError), online_state\<lparr>retryCount := 3\<rparr>, world_of (always Rejected))"
  using isolated_call_retry_backoff [of "''/search''" "''GET''" None online_state
      "world_of (recovers_at 2)" 2 ok_envelope NetworkError 0 0]
    isolated_call_retry_backoff [of "''/search''" "''GET''" None online_state
      "world_of (always Rejected)" 0 ok_envelope NetworkError 0 0]
    isolated_call_retry_backoff [of "''/search''" "''GET''" None offline_state
      "world_of (always Rejected)" 0 ok_envelope NetworkError 0 0]
    isolated_call_retry_backoff [of "''/search''" "''GET''" None "online_state\<lparr>retryCount := 1\<rparr>"
      "world_of (always Rejected)" 0 ok_envelope NetworkError 0 0]
    isolated_call_retry_backoff [of "''/search''" "''GET''" None "online_state\<lparr>retryCount := 3\<rparr>"
      "world_of (always Rejected)" 0 ok_envelope NetworkError 0 0]
  by (simp add: online_state_def offline_state_def world_of_def recovers_at_def always_def
      attempt_def fetch_of_def apiBaseUrl_def upt_conv_Cons numeral_2_eq_2)

text \<open>
  The claim C5 as stated fails when calls overlap. The order poll and the authentication
  check both start online with the counter at zero, and every fetch is rejected. The
  poll's first failure sets the counter to 1 and waits 1000 ms; the check's first failure
  finds the counter at 1, so the delay before its first retry is 2000 ms. The poll's
  second failure sets the counter to 3 and waits 3000 ms; the check's second attempt
  then finds the counter at 3 and throws after a single retry, and the poll throws after
  two.
\<close>

theorem overlapping_calls_share_retry_counter:
  "retryCount (fst (snd (run_schedule [0] (two_calls, online_state, world_of (always Rejected))))) = 0
   \<and> map snd (fst (run_schedule [0, 1, 0, 1] (two_calls, online_state, world_of (always Rejected))))
     = [Delaying 1000, Delaying 2000]
   \<and> map snd (fst (run_schedule [0, 1, 0, 1, 0, 0, 1, 1, 0, 0]
        (two_calls, online_state, world_of (always Rejected))))
     = [Finished (Inl NetworkError), Finished (Inl NetworkError)]
   \<and> effects (snd (snd (run_schedule [0, 1, 0, 1, 0, 0, 1, 1, 0, 0]
        (two_calls, online_state, world_of (always Rejected)))))
     = [Fetch ''/api/orders/7'' ''GET'' None, Fetch ''/api/auth/profile'' ''GET'' None,
        Delay 1000, Delay 2000,
        Fetch ''/api/orders/7'' ''GET'' None, Delay 3000,
        Fetch ''/api/auth/profile'' ''GET'' None,
        Fetch ''/api/orders/7'' ''GET'' None]"
  by code_simp

lemma attempt_http_error:
  "\<not> (200 \<le> status \<and> status \<le> 299) \<Longrightarrow> attempt (Replied status body) = Inl (HttpError status)"
  by (auto simp: attempt_def)

text \<open>
  C3, as amended. A response whose status is not 2xx makes the attempt fail with the
  error that carries the status. The call throws it at once, after that single fetch,
  when the page is offline or the retry counter has reached 3; when the page is online
  and the counter is below 3, the call is reissued after a delay of 1000 ms times the
  incremented counter, as for any other failure.
\<close>

theorem http_error_retried_when_online:
  "(network w (issued w) = Replied status body \<and> \<not> (200 \<le> status \<and> status \<le> 299)
      \<and> \<not> (isOnline s \<and> retryCount s < 3) \<longrightarrow>
    apiCall endpoint meth data (s, w) =
      (Inl (HttpError status), s,
       w\<lparr>effects := effects w @ [fetch_of endpoint meth data], issued := issued w + 1\<rparr>))
   \<and> (network w (issued w) = Replied status body \<and> \<not> (200 \<le> status \<and> status \<le> 299)
      \<and> isOnline s \<and> retryCount s < 3 \<longrightarrow>
    apiCall endpoint meth data (s, w) =
      apiCall endpoint meth data
        (s\<lparr>retryCount := retryCount s + 1\<rparr>,
         w\<lparr>effects := effects w @ [fetch_of endpoint meth data, Delay (1000 * (retryCount s + 1))],
           issued := issued w + 1\<rparr>))"
proof (intro conjI impI)
  assume h: "network w (issued w) = Replied status body \<and> \<not> (200 \<le> status \<and> status \<le> 299)
      \<and> \<not> (isOnline s \<and> retryCount s < 3)"
  then have a: "attempt (network w (issued w)) = Inl (HttpError status)"
    by (simp add: attempt_http_error)
  from h have b: "\<not> (isOnline s \<and> retryCount s < maxRetries)" by (simp add: maxRetries_def)
  show "apiCall endpoint meth data (s, w) =
      (Inl (HttpError status), s,
       w\<lparr>effects := effects w @ [fetch_of endpoint meth data], issued := issued w + 1\<rparr>)"
    using apiCall_fail [OF a b, of endpoint meth data] by (simp add: sent_eq)
next
  assume h: "network w (issued w) = Replied status body \<and> \<not> (200 \<le> status \<and> status \<le> 299)
      \<and> isOnline s \<and> retryCount s < 3"
  then have a: "attempt (network w (issued w)) = Inl (HttpError status)"
    by (simp add: attempt_http_error)
  from h have b: "isOnline s" and c: "retryCount s < maxRetries" by (simp_all add: maxRetries_def)
  show "apiCall endpoint meth data (s, w) =
      apiCall endpoint meth data
        (s\<lparr>retryCount := retryCount s + 1\<rparr>,
         w\<lparr>effects := effects w @ [fetch_of endpoint meth data, Delay (1000 * (retryCount s + 1))],
           issued := issued w + 1\<rparr>)"
  proof -
    have "emit (Delay (1000 * (retryCount s + 1))) (sent endpoint meth data w) =
        w\<lparr>effects := effects w @ [fetch_of endpoint meth data, Delay (1000 * (retryCount s + 1))],
          issued := issued w + 1\<rparr>"
      by (simp add: sent_eq emit_def)
    then show ?thesis by (simp only: apiCall_retry [OF a b c, of endpoint meth data])
  qed
qed

theorem http_error_retried_when_online_witness:
  "apiCall ''/dashboard-stats'' ''GET'' None (offline_state, world_of (always (Replied 500 None))) =
     (Inl (HttpError 500), offline_state,
      (world_of (always (Replied 500 None)))
        \<lparr>effects := [Fetch ''/api/dashboard-stats'' ''GET'' None], issued := 1\<rparr>)
   \<and> apiCall ''/dashboard-stats'' ''GET'' None (online_state, world_of (always (Replied 500 None))) =
     apiCall ''/dashboard-stats'' ''GET'' None
       (online_state\<lparr>retryCount := 1\<rparr>,
        (world_of (always (Replied 500 None)))
          \<lparr>effects := [Fetch ''/api/dashboard-stats'' ''GET'' None, Delay 1000], issued := 1\<rparr>)"
  using http_error_retried_when_online [of "world_of (always (Replied 500 None))" 500 None
      offline_state "''/dashboard-stats''" "''GET''" None]
    http_error_retried_when_online [of "world_of (always (Replied 500 None))" 500 None
      online_state "''/dashboard-stats''" "''GET''" None]
  by (simp add: online_state_def offline_state_def world_of_def always_def fetch_of_def apiBaseUrl_def)

text \<open>
  The claim C3 as stated fails: online with the counter at zero, a \<open>/dashboard-stats\<close>
  call that is always answered with HTTP 500 is fetched four times, with three delays,
  before the error is thrown.
\<close>

theorem http_500_is_retried:
  "fst (apiCall ''/dashboard-stats'' ''GET'' None (online_state, world_of (always (Replied 500 None))))
     = Inl (HttpError 500)
   \<and> effects (snd (snd (apiCall ''/dashboard-stats'' ''GET'' None
        (online_state, world_of (always (Replied 500 None))))))
     = [Fetch ''/api/dashboard-stats'' ''GET'' None, Delay 1000,
        Fetch ''/api/dashboard-stats'' ''GET'' None, Delay 2000,
        Fetch ''/api/dashboard-stats'' ''GET'' None, Delay 3000,
        Fetch ''/api/dashboard-stats'' ''GET'' None]"
  by code_simp

lemma refreshCurrentPage_syncQueue:
  "syncQueue (fst (refreshCurrentPage (s, w))) = syncQueue s"
  using apiCall_syncQueue [of "''/dashboard-stats''" "''GET''" None s w]
  by (auto simp: refreshCurrentPage_def split: prod.splits sum.splits)

lemma refreshCurrentPage_keeps_queue:
  "refreshCurrentPage (s, w) = (s', w') \<Longrightarrow> syncQueue s' = syncQueue s"
  using refreshCurrentPage_syncQueue [of s w] by simp

lemma apiCall_keeps_queue:
  "apiCall endpoint meth data (s, w) = (r, s', w') \<Longrightarrow> syncQueue s' = syncQueue s"
  using apiCall_syncQueue [of endpoint meth data s w] by simp

lemma quickStartOrder_syncQueue:
  "syncQueue (fst (quickStartOrder orderId confirmed (s, w))) = syncQueue s"
  by (auto simp: quickStartOrder_def split: prod.splits sum.splits
      dest!: apiCall_keeps_queue refreshCurrentPage_keeps_queue)

lemma quickCompleteOrder_syncQueue:
  "syncQueue (fst (quickCompleteOrder orderId confirmed (s, w))) = syncQueue s"
  by (auto simp: quickCompleteOrder_def split: prod.splits sum.splits
      dest!: apiCall_keeps_queue refreshCurrentPage_keeps_queue)

text \<open>
  C2, as amended. Neither \<open>quickStartOrder\<close> nor \<open>quickCompleteOrder\<close> ever changes
  \<open>state.syncQueue\<close>, whatever the user answers and the network does. When the page is
  offline and the call fails, the action is fetched once, is not queued, and the user
  is told by the error toast.
\<close>

theorem failed_order_action_not_queued:
  "syncQueue (fst (quickStartOrder orderId confirmed (s, w))) = syncQueue s
   \<and> syncQueue (fst (quickCompleteOrder orderId confirmed (s, w))) = syncQueue s
   \<and> (\<not> isOnline s \<and> attempt (network w (issued w)) = Inl error \<longrightarrow>
        quickStartOrder orderId True (s, w) =
          (s, w\<lparr>effects := effects w @
                 [ShowLoading ''Starting order...'',
                  Fetch (''/api/orders/'' @ orderId @ ''/start'') ''POST'' None,
                  Toast ''Failed to start order. Please try again.'' ''error'',
                  HideLoading],
               issued := issued w + 1\<rparr>)
        \<and> quickCompleteOrder orderId True (s, w) =
          (s, w\<lparr>effects := effects w @
                 [ShowLoading ''Completing order...'',
                  Fetch (''/api/orders/'' @ orderId @ ''/finish'') ''POST'' None,
                  Toast ''Failed to complete order. Please try again.'' ''error'',
                  HideLoading],
               issued := issued w + 1\<rparr>))"
proof (intro conjI impI)
  show "syncQueue (fst (quickStartOrder orderId confirmed (s, w))) = syncQueue s"
    by (rule quickStartOrder_syncQueue)
  show "syncQueue (fst (quickCompleteOrder orderId confirmed (s, w))) = syncQueue s"
    by (rule quickCompleteOrder_syncQueue)
next
  assume h: "\<not> isOnline s \<and> attempt (network w (issued w)) = Inl error"
  have "apiCall (''/orders/'' @ orderId @ ''/start'') ''POST'' None
          (s, emit (ShowLoading ''Starting order...'') w)
        = (Inl error, s, sent (''/orders/'' @ orderId @ ''/start'') ''POST'' None
             (emit (ShowLoading ''Starting order...'') w))"
    using h by (intro apiCall_fail) (simp_all add: emit_def)
  then show "quickStartOrder orderId True (s, w) =
          (s, w\<lparr>effects := effects w @
                 [ShowLoading ''Starting order...'',
                  Fetch (''/api/orders/'' @ orderId @ ''/start'') ''POST'' None,
                  Toast ''Failed to start order. Please try again.'' ''error'',
                  HideLoading],
               issued := issued w + 1\<rparr>)"
    by (simp add: quickStartOrder_def sent_def emit_def apiBaseUrl_def)
next
  assume h: "\<not> isOnline s \<and> attempt (network w (issued w)) = Inl error"
  have "apiCall (''/orders/'' @ orderId @ ''/finish'') ''POST'' None
          (s, emit (ShowLoading ''Completing order...'') w)
        = (Inl error, s, sent (''/orders/'' @ orderId @ ''/finish'') ''POST'' None
             (emit (ShowLoading ''Completing order...'') w))"
    using h by (intro apiCall_fail) (simp_all add: emit_def)
  then show "quickCompleteOrder orderId True (s, w) =
          (s, w\<lparr>effects := effects w @
                 [ShowLoading ''Completing order...'',
                  Fetch (''/api/orders/'' @ orderId @ ''/finish'') ''POST'' None,
                  Toast ''Failed to complete order. Please try again.'' ''error'',
                  HideLoading],
               issued := issued w + 1\<rparr>)"
    by (simp add: quickCompleteOrder_def sent_def emit_def apiBaseUrl_def)
qed

theorem failed_order_action_not_queued_witness:
  "quickStartOrder ''5'' True (offline_state, world_of (always Rejected)) =
     (offline_state,
      (world_of (always Rejected))
        \<lparr>effects := [ShowLoading ''Starting order...'',
                     Fetch ''/api/orders/5/start'' ''POST'' None,
                     Toast ''Failed to start order. Please try again.'' ''error'',
                     HideLoading],
         issued := 1\<rparr>)
   \<and> syncQueue (fst (quickCompleteOrder ''5'' True (offline_state, world_of (always Rejected)))) = []"
  using failed_order_action_not_queued [of "''5''" True offline_state "world_of (always Rejected)"
      NetworkError]
  by (simp add: offline_state_def world_of_def always_def attempt_def)

text \<open>
  The claim C2 as stated fails: offline with the network down and an empty queue,
  starting or completing order 5 leaves the queue empty.
\<close>

theorem offline_order_action_is_lost:
  "syncQueue (fst (quickStartOrder ''5'' True (offline_state, world_of (always Rejected)))) = []
   \<and> syncQueue (fst (quickCompleteOrder ''5'' True (offline_state, world_of (always Rejected)))) = []"
  by code_simp

lemma syncLoop_done:
  "\<not> i < length (syncQueue s) \<Longrightarrow> syncLoop h i (s, w) = (s, w)"
  by (simp add: syncLoop.simps [of h i s w])

lemma syncLoop_success:
  assumes "i < length (syncQueue s)"
    and "apiCall (act_endpoint (h (syncQueue s ! i)))
           (case act_method (h (syncQueue s ! i)) of None \<Rightarrow> ''GET'' | Some m \<Rightarrow> m)
           (act_data (h (syncQueue s ! i))) (s, w) = (Inr result, s', w')"
  shows "syncLoop h i (s, w) =
     syncLoop h (i + 1)
       (s'\<lparr>syncQueue := splice_js (syncQueue s') (indexOf (syncQueue s') (syncQueue s ! i)) 1\<rparr>, w')"
  using assms by (simp add: syncLoop.simps [of h i s w])

lemma syncLoop_failure:
  assumes "i < length (syncQueue s)"
    and "apiCall (act_endpoint (h (syncQueue s ! i)))
           (case act_method (h (syncQueue s ! i)) of None \<Rightarrow> ''GET'' | Some m \<Rightarrow> m)
           (act_data (h (syncQueue s ! i))) (s, w) = (Inl error, s', w')"
  shows "syncLoop h i (s, w) = syncLoop h (i + 1) (s', w')"
  using assms by (simp add: syncLoop.simps [of h i s w])

lemma apiCall_offline:
  "\<not> isOnline s \<Longrightarrow>
   \<exists>r rc. apiCall endpoint meth data (s, w) = (r, s\<lparr>retryCount := rc\<rparr>, sent endpoint meth data w)"
proof (cases "attempt (network w (issued w))")
  case (Inl error)
  assume "\<not> isOnline s"
  with Inl have "apiCall endpoint meth data (s, w) = (Inl error, s, sent endpoint meth data w)"
    by (simp add: apiCall_fail)
  then have "apiCall endpoint meth data (s, w) =
      (Inl error, s\<lparr>retryCount := retryCount s\<rparr>, sent endpoint meth data w)" by simp
  then show ?thesis by blast
next
  case (Inr result)
  then have "apiCall endpoint meth data (s, w) =
      (Inr result, s\<lparr>retryCount := 0\<rparr>, sent endpoint meth data w)"
    by (rule apiCall_success)
  then show ?thesis by blast
qed

text \<open>
  C1. The queue holds two actions (for instance "start order 5", then "finish
  order 5") and the first call succeeds. The loop removes the first action while it
  iterates, so the iterator's index 1 is past the end of the shortened array: only the
  first action's call is issued, and the second action is still queued when the pass
  ends with its toast.
\<close>

theorem drain_skips_second_action:
  "syncQueue s = [a, b] \<and> attempt (network w (issued w)) = Inr result \<longrightarrow>
   syncOfflineActions h (s, w) =
     (s\<lparr>syncQueue := [b], retryCount := 0\<rparr>,
      w\<lparr>effects := effects w @ [action_fetch (h a),
                                  Toast ''Offline actions synced successfully'' ''success''],
        issued := issued w + 1\<rparr>)"
proof
  assume h: "syncQueue s = [a, b] \<and> attempt (network w (issued w)) = Inr result"
  let ?e = "act_endpoint (h a)"
  let ?m = "case act_method (h a) of None \<Rightarrow> ''GET'' | Some m \<Rightarrow> m"
  let ?d = "act_data (h a)"
  let ?s1 = "s\<lparr>retryCount := 0\<rparr>"
  let ?w1 = "sent ?e ?m ?d w"
  have call: "apiCall ?e ?m ?d (s, w) = (Inr result, ?s1, ?w1)"
    using h by (simp add: apiCall_success)
  have "syncLoop h 0 (s, w) =
      syncLoop h (0 + 1)
        (?s1\<lparr>syncQueue := splice_js (syncQueue ?s1) (indexOf (syncQueue ?s1) (syncQueue s ! 0)) 1\<rparr>, ?w1)"
    using h call by (intro syncLoop_success) simp_all
  also have "?s1\<lparr>syncQueue := splice_js (syncQueue ?s1) (indexOf (syncQueue ?s1) (syncQueue s ! 0)) 1\<rparr>
      = s\<lparr>syncQueue := [b], retryCount := 0\<rparr>"
    using h by (simp add: splice_js_def)
  also have "syncLoop h (0 + 1) (s\<lparr>syncQueue := [b], retryCount := 0\<rparr>, ?w1)
      = (s\<lparr>syncQueue := [b], retryCount := 0\<rparr>, ?w1)"
    by (rule syncLoop_done) simp
  finally have loop: "syncLoop h 0 (s, w) = (s\<lparr>syncQueue := [b], retryCount := 0\<rparr>, ?w1)" .
  have "emit (Toast ''Offline actions synced successfully'' ''success'') ?w1
      = w\<lparr>effects := effects w @ [action_fetch (h a),
                                  Toast ''Offline actions synced successfully'' ''success''],
        issued := issued w + 1\<rparr>"
    by (simp add: sent_eq emit_def action_fetch_def)
  with h loop show "syncOfflineActions h (s, w) =
     (s\<lparr>syncQueue := [b], retryCount := 0\<rparr>,
      w\<lparr>effects := effects w @ [action_fetch (h a),
                                  Toast ''Offline actions synced successfully'' ''success''],
        issued := issued w + 1\<rparr>)"
    by (simp add: syncOfflineActions_def)
qed

theorem drain_skips_second_action_witness:
  "syncQueue (fst (syncOfflineActions order5_store
       (online_state\<lparr>syncQueue := [1, 2]\<rparr>, world_of (always (Replied 200 (Some ok_envelope))))))
     = [2]
   \<and> effects (snd (syncOfflineActions order5_store
       (online_state\<lparr>syncQueue := [1, 2]\<rparr>, world_of (always (Replied 200 (Some ok_envelope))))))
     = [Fetch ''/api/orders/5/start'' ''POST'' None,
        Toast ''Offline actions synced successfully'' ''success'']"
  using drain_skips_second_action [of "online_state\<lparr>syncQueue := [1, 2]\<rparr>" 1 2
      "world_of (always (Replied 200 (Some ok_envelope)))" ok_envelope order5_store]
  by (simp add: online_state_def world_of_def always_def attempt_def order5_store_def
      post_action_def action_fetch_def fetch_of_def apiBaseUrl_def)

text \<open>
  C4. The queue holds three actions; the call for the first fails (after whatever
  retries) and the call for the second succeeds. The first action stays queued, but
  removing the second one makes the iterator skip the third: after the second action's
  fetch nothing more is issued in this pass, and the third action is still queued.
\<close>

theorem drain_skips_after_success:
  "syncQueue s = [a, b, c]
   \<and> apiCall (act_endpoint (h a)) (case act_method (h a) of None \<Rightarrow> ''GET'' | Some m \<Rightarrow> m)
        (act_data (h a)) (s, w) = (Inl error, s1, w1)
   \<and> attempt (network w1 (issued w1)) = Inr result \<longrightarrow>
   syncOfflineActions h (s, w) =
     (s1\<lparr>syncQueue := [a, c], retryCount := 0\<rparr>,
      w1\<lparr>effects := effects w1 @ [action_fetch (h b),
                                    Toast ''Offline actions synced successfully'' ''success''],
         issued := issued w1 + 1\<rparr>)"
proof
  assume hyp: "syncQueue s = [a, b, c]
   \<and> apiCall (act_endpoint (h a)) (case act_method (h a) of None \<Rightarrow> ''GET'' | Some m \<Rightarrow> m)
        (act_data (h a)) (s, w) = (Inl error, s1, w1)
   \<and> attempt (network w1 (issued w1)) = Inr result"
  let ?e = "act_endpoint (h b)"
  let ?m = "case act_method (h b) of None \<Rightarrow> ''GET'' | Some m \<Rightarrow> m"
  let ?d = "act_data (h b)"
  let ?s2 = "s1\<lparr>retryCount := 0\<rparr>"
  let ?w2 = "sent ?e ?m ?d w1"
  let ?s3 = "s1\<lparr>syncQueue := [a, c], retryCount := 0\<rparr>"
  from hyp have q1: "syncQueue s1 = [a, b, c]" by (auto dest: apiCall_keeps_queue)
  have first: "syncLoop h 0 (s, w) = syncLoop h (0 + 1) (s1, w1)"
    using hyp by (intro syncLoop_failure) simp_all
  have call: "apiCall ?e ?m ?d (s1, w1) = (Inr result, ?s2, ?w2)"
    using hyp by (simp add: apiCall_success)
  have "syncLoop h 1 (s1, w1) =
      syncLoop h (1 + 1)
        (?s2\<lparr>syncQueue := splice_js (syncQueue ?s2) (indexOf (syncQueue ?s2) (syncQueue s1 ! 1)) 1\<rparr>, ?w2)"
    using q1 call by (intro syncLoop_success) simp_all
  also have "?s2\<lparr>syncQueue := splice_js (syncQueue ?s2) (indexOf (syncQueue ?s2) (syncQueue s1 ! 1)) 1\<rparr> = ?s3"
    using q1 by (auto simp: splice_js_def)
  also have "syncLoop h (1 + 1) (?s3, ?w2) = (?s3, ?w2)"
    by (rule syncLoop_done) simp
  finally have loop: "syncLoop h 0 (s, w) = (?s3, ?w2)" using first by simp
  have "emit (Toast ''Offline actions synced successfully'' ''success'') ?w2
      = w1\<lparr>effects := effects w1 @ [action_fetch (h b),
                                    Toast ''Offline actions synced successfully'' ''success''],
         issued := issued w1 + 1\<rparr>"
    by (simp add: sent_eq emit_def action_fetch_def)
  with hyp loop show "syncOfflineActions h (s, w) =
     (?s3,
      w1\<lparr>effects := effects w1 @ [action_fetch (h b),
                                    Toast ''Offline actions synced successfully'' ''success''],
         issued := issued w1 + 1\<rparr>)"
    by (simp add: syncOfflineActions_def)
qed

theorem drain_skips_after_success_witness:
  "syncQueue (fst (syncOfflineActions three_orders_store
       (online_state\<lparr>syncQueue := [1, 2, 3]\<rparr>, world_of (http_500_until 4)))) = [1, 3]
   \<and> effects (snd (syncOfflineActions three_orders_store
       (online_state\<lparr>syncQueue := [1, 2, 3]\<rparr>, world_of (http_500_until 4))))
     = [Fetch ''/api/orders/5/start'' ''POST'' None, Delay 1000,
        Fetch ''/api/orders/5/start'' ''POST'' None, Delay 2000,
        Fetch ''/api/orders/5/start'' ''POST'' None, Delay 3000,
        Fetch ''/api/orders/5/start'' ''POST'' None,
        Fetch ''/api/orders/6/start'' ''POST'' None,
        Toast ''Offline actions synced successfully'' ''success'']"
proof -
  let ?s = "online_state\<lparr>syncQueue := [1, 2, 3]\<rparr>"
  let ?w = "world_of (http_500_until 4)"
  let ?f = "fetch_of ''/orders/5/start'' ''POST'' None"
  let ?s1 = "?s\<lparr>retryCount := maxRetries\<rparr>"
  let ?w1 = "?w\<lparr>effects := effects ?w @ backoff_log ?f (retryCount ?s) 3 @ [?f],
              issued := issued ?w + 3 + 1\<rparr>"
  have call: "apiCall ''/orders/5/start'' ''POST'' None (?s, ?w) = (Inl (HttpError 500), ?s1, ?w1)"
    by (rule apiCall_gives_up_after)
      (simp_all add: online_state_def world_of_def http_500_until_def maxRetries_def attempt_def)
  have next_ok: "attempt (network ?w1 (issued ?w1)) = Inr ok_envelope"
    by (simp add: world_of_def http_500_until_def attempt_def)
  have queue: "syncQueue ?s = [1, 2, 3]" by simp
  show ?thesis
    using drain_skips_after_success [of ?s 1 2 3 three_orders_store ?w "HttpError 500" ?s1 ?w1 ok_envelope]
      call next_ok queue
    by (simp add: three_orders_store_def post_action_def action_fetch_def fetch_of_def apiBaseUrl_def
        online_state_def world_of_def backoff_log_3)
qed

text \<open>
  C7. The page is offline and becomes visible on a page that \<open>shouldRefreshCurrentPage\<close>
  accepts: \<open>handleVisibilityChange\<close> calls \<open>refreshCurrentPage\<close> without looking at
  \<open>isOnline\<close>, so the \<open>/dashboard-stats\<close> fetch is issued while \<open>isOnline\<close> is false.
\<close>

theorem visible_while_offline_fetches:
  "\<not> isOnline s \<and> visibilityState w = ''visible'' \<and> shouldRefreshCurrentPage w \<longrightarrow>
   \<not> isOnline (fst (handleVisibilityChange (s, w)))
   \<and> (\<exists>rest. effects (snd (handleVisibilityChange (s, w)))
         = effects w @ Fetch ''/api/dashboard-stats'' ''GET'' None # rest)"
proof
  assume hyp: "\<not> isOnline s \<and> visibilityState w = ''visible'' \<and> shouldRefreshCurrentPage w"
  let ?s1 = "s\<lparr>pageVisibility := visibilityState w\<rparr>"
  let ?w1 = "sent ''/dashboard-stats'' ''GET'' None w"
  from hyp have "\<not> isOnline ?s1" by simp
  then obtain r rc where call:
    "apiCall ''/dashboard-stats'' ''GET'' None (?s1, w) = (r, ?s1\<lparr>retryCount := rc\<rparr>, ?w1)"
    using apiCall_offline [of ?s1 "''/dashboard-stats''" "''GET''" None w] by blast
  have w1: "effects ?w1 = effects w @ [Fetch ''/api/dashboard-stats'' ''GET'' None]"
    by (simp add: sent_eq fetch_of_def apiBaseUrl_def)
  have "refreshCurrentPage (?s1, w) = (?s1\<lparr>retryCount := rc\<rparr>, ?w1)
      \<or> refreshCurrentPage (?s1, w) = (?s1\<lparr>retryCount := rc\<rparr>, emit UpdateDashboardStats ?w1)"
    using hyp call by (cases r) (simp_all add: refreshCurrentPage_def)
  then show "\<not> isOnline (fst (handleVisibilityChange (s, w)))
   \<and> (\<exists>rest. effects (snd (handleVisibilityChange (s, w)))
         = effects w @ Fetch ''/api/dashboard-stats'' ''GET'' None # rest)"
    using hyp w1 by (auto simp: handleVisibilityChange_def startRealTimeUpdates_def emit_def)
qed

theorem visible_while_offline_fetches_witness:
  "isOnline (fst (handleVisibilityChange
       (offline_state\<lparr>pageVisibility := ''hidden''\<rparr>, world_of (always Rejected)))) = False
   \<and> effects (snd (handleVisibilityChange
       (offline_state\<lparr>pageVisibility := ''hidden''\<rparr>, world_of (always Rejected))))
     = [Fetch ''/api/dashboard-stats'' ''GET'' None]"
proof -
  have "effects (snd (handleVisibilityChange
       (offline_state\<lparr>pageVisibility := ''hidden''\<rparr>, world_of (always Rejected))))
     = [Fetch ''/api/dashboard-stats'' ''GET'' None]"
    by code_simp
  with visible_while_offline_fetches [of "offline_state\<lparr>pageVisibility := ''hidden''\<rparr>"
      "world_of (always Rejected)"]
  show ?thesis
    by (simp add: offline_state_def world_of_def shouldRefreshCurrentPage_def)
qed

text \<open>
  The timer's tick, in contrast, does nothing unless the page is visible and online, and
  no timer is armed while offline.
\<close>

lemma refreshTick_guard:
  "\<not> (pageVisibility s = ''visible'' \<and> isOnline s) \<Longrightarrow> refreshTick (s, w) = (s, w)"
  by (auto simp: refreshTick_def)

lemma startRealTimeUpdates_offline:
  "\<not> isOnline s \<Longrightarrow> startRealTimeUpdates (s, w) = (s, w)"
  by (simp add: startRealTimeUpdates_def)

end
